theory Spec2Isabelle
  imports
    Complex_Main
    "HOL-Library.AList"
    "HOL-Library.Char_ord"
    "HOL-Library.List_Lexorder"
begin

section \<open>Data frames\<close>

text \<open>
  The script \<^verbatim>\<open>predict.py\<close> works on pandas data frames read from the census files.
  A column of a frame has one dtype: \<^verbatim>\<open>object\<close> (the strings of a categorical field,
  kept with their leading blank, since the separator \<^verbatim>\<open>\s*,\<close> only eats the blanks in
  front of a comma), \<^verbatim>\<open>int64\<close> or \<^verbatim>\<open>float64\<close>. A \<^verbatim>\<open>float64\<close> entry is kept as
  the rational number it stands for. The census files have no empty field, so no frame
  holds not-a-number, and infinities do not occur either.

  A frame is the list of its named columns, in column order. Strings are compared as
  Python 2 compares \<^verbatim>\<open>str\<close>: byte by byte, a proper prefix first.
\<close>

datatype error = KeyError | ValueError | AttributeError | EOFError | IndexError

datatype column = Object "string list" | Int64 "int list" | Float64 "rat list"

type_synonym table = "(string \<times> column) list"

fun column_len :: "column \<Rightarrow> nat" where
  "column_len (Object xs) = length xs"
| "column_len (Int64 xs) = length xs"
| "column_len (Float64 xs) = length xs"

text \<open>
  The conversion of an \<^verbatim>\<open>int64\<close> to \<^verbatim>\<open>float64\<close>: a \<^verbatim>\<open>float64\<close> has 53
  significant bits, and a longer number is rounded to the nearest one that fits, to the
  even one of two that are equally near. (An \<^verbatim>\<open>int64\<close> is below \<open>2 ^ 63\<close> in size,
  far from the largest \<^verbatim>\<open>float64\<close>.)
\<close>

fun bit_length :: "nat \<Rightarrow> nat" where
  "bit_length n = (if n = 0 then 0 else Suc (bit_length (n div 2)))"

definition round53 :: "nat \<Rightarrow> nat" where
  "round53 n =
     (if bit_length n \<le> 53 then n
      else
        (let e = bit_length n - 53; q = n div 2 ^ e; r = n mod 2 ^ e; half = 2 ^ (e - 1)
         in (if half < r \<or> (r = half \<and> odd q) then q + 1 else q) * 2 ^ e))"

definition float64_of_int :: "int \<Rightarrow> rat" where
  "float64_of_int i =
     (if i < 0 then - of_nat (round53 (nat (- i))) else of_nat (round53 (nat i)))"

text \<open>\<^verbatim>\<open>data[column]\<close>: a missing column raises \<^verbatim>\<open>KeyError\<close>.\<close>

definition get_column :: "table \<Rightarrow> string \<Rightarrow> error + column" where
  "get_column data c = (case map_of data c of None \<Rightarrow> Inl KeyError | Some col \<Rightarrow> Inr col)"

text \<open>\<^verbatim>\<open>output[column] = values\<close>: replaces the column in place, or appends a new one.\<close>

definition set_column :: "table \<Rightarrow> string \<Rightarrow> column \<Rightarrow> table" where
  "set_column output c col = AList.update c col output"

section \<open>The label encoder of scikit-learn\<close>

text \<open>
  \<^verbatim>\<open>LabelEncoder\<close> is library code. \<^verbatim>\<open>fit(y)\<close> stores \<^verbatim>\<open>classes_ = np.unique(y)\<close>,
  the sorted distinct values. \<^verbatim>\<open>transform(y)\<close> raises \<^verbatim>\<open>ValueError\<close>
  (\<^verbatim>\<open>y contains new labels\<close>) when a value of \<^verbatim>\<open>y\<close> is not a class, and otherwise
  returns \<^verbatim>\<open>np.searchsorted(classes_, y)\<close>: for each value the first index whose class
  is not smaller. \<^verbatim>\<open>inverse_transform(y)\<close> indexes \<^verbatim>\<open>classes_\<close>.
\<close>

definition np_unique :: "'a::linorder list \<Rightarrow> 'a list" where
  "np_unique xs = sort (remdups xs)"

definition searchsorted :: "'a::linorder list \<Rightarrow> 'a \<Rightarrow> nat" where
  "searchsorted a v = length (takeWhile (\<lambda>x. x < v) a)"

definition encode_labels :: "'a::linorder list \<Rightarrow> 'a list \<Rightarrow> error + column" where
  "encode_labels classes y =
     (if list_all (\<lambda>v. v \<in> set classes) y
      then Inr (Int64 (map (\<lambda>v. int (searchsorted classes v)) y))
      else Inl ValueError)"

text \<open>The fitted encoder is its array \<^verbatim>\<open>classes_\<close>.\<close>

fun LabelEncoder_fit :: "column \<Rightarrow> column" where
  "LabelEncoder_fit (Object xs) = Object (np_unique xs)"
| "LabelEncoder_fit (Int64 xs) = Int64 (np_unique xs)"
| "LabelEncoder_fit (Float64 xs) = Float64 (np_unique xs)"

text \<open>
  A string never equals a number, so every value of an array of the other kind is a new
  label; only the empty array passes. Integers and floats are compared as NumPy compares
  them, the integers converted to \<^verbatim>\<open>float64\<close>.
\<close>

fun LabelEncoder_transform :: "column \<Rightarrow> column \<Rightarrow> error + column" where
  "LabelEncoder_transform (Object classes) (Object y) = encode_labels classes y"
| "LabelEncoder_transform (Int64 classes) (Int64 y) = encode_labels classes y"
| "LabelEncoder_transform (Object classes) (Int64 y) =
     (if y = [] then Inr (Int64 []) else Inl ValueError)"
| "LabelEncoder_transform (Int64 classes) (Object y) =
     (if y = [] then Inr (Int64 []) else Inl ValueError)"
| "LabelEncoder_transform (Float64 classes) (Float64 y) = encode_labels classes y"
| "LabelEncoder_transform (Float64 classes) (Int64 y) =
     encode_labels classes (map float64_of_int y)"
| "LabelEncoder_transform (Int64 classes) (Float64 y) =
     encode_labels (map float64_of_int classes) y"
| "LabelEncoder_transform (Object classes) (Float64 y) =
     (if y = [] then Inr (Int64 []) else Inl ValueError)"
| "LabelEncoder_transform (Float64 classes) (Object y) =
     (if y = [] then Inr (Int64 []) else Inl ValueError)"

section \<open>EncodeCategorical\<close>

record EncodeCategorical =
  enc_columns :: "string list option"
  encoders :: "(string \<times> column) list option"

definition EncodeCategorical_init :: "string list option \<Rightarrow> EncodeCategorical" where
  "EncodeCategorical_init cols = \<lparr>enc_columns = cols, encoders = None\<rparr>"

text \<open>
  The dictionary comprehension of \<^verbatim>\<open>fit\<close>: one fitted encoder per column name, a
  repeated name stored once. The dictionary is kept as a list in the order of the
  names; Python 2 walks it in an order of its own, which makes no difference to a
  \<^verbatim>\<open>transform\<close> that returns, since each encoder writes its own column.
\<close>

fun fit_encoders :: "table \<Rightarrow> string list \<Rightarrow> error + (string \<times> column) list" where
  "fit_encoders data [] = Inr []"
| "fit_encoders data (c # cs) =
     (case get_column data c of
        Inl e \<Rightarrow> Inl e
      | Inr col \<Rightarrow>
          (case fit_encoders data cs of
             Inl e \<Rightarrow> Inl e
           | Inr encs \<Rightarrow> Inr ((c, LabelEncoder_fit col) # encs)))"

text \<open>
  \<^verbatim>\<open>fit(self, data, target=None)\<close>: \<^verbatim>\<open>columns = None\<close> means every column of the
  frame, and the choice is stored in the object.
\<close>

definition EncodeCategorical_fit ::
  "EncodeCategorical \<Rightarrow> table \<Rightarrow> int list option \<Rightarrow> error + EncodeCategorical" where
  "EncodeCategorical_fit self data target =
     (let cols = (case enc_columns self of None \<Rightarrow> map fst data | Some cs \<Rightarrow> cs)
      in case fit_encoders data (remdups cols) of
           Inl e \<Rightarrow> Inl e
         | Inr encs \<Rightarrow> Inr (self\<lparr>enc_columns := Some cols, encoders := Some encs\<rparr>))"

text \<open>
  The loop of \<^verbatim>\<open>transform\<close>: each encoder reads its column from \<^verbatim>\<open>data\<close> and the
  codes are written to \<^verbatim>\<open>output\<close>.
\<close>

fun encode_items :: "table \<Rightarrow> (string \<times> column) list \<Rightarrow> table \<Rightarrow> error + table" where
  "encode_items data [] output = Inr output"
| "encode_items data ((c, encoder) # items) output =
     (case get_column data c of
        Inl e \<Rightarrow> Inl e
      | Inr col \<Rightarrow>
          (case LabelEncoder_transform encoder col of
             Inl e \<Rightarrow> Inl e
           | Inr codes \<Rightarrow> encode_items data items (set_column output c codes)))"

text \<open>
  \<^verbatim>\<open>transform(self, data)\<close>, as a function of the frame: \<^verbatim>\<open>output\<close> starts as a copy
  of \<^verbatim>\<open>data\<close>. An encoder that was never fitted has \<^verbatim>\<open>encoders = None\<close>, and
  \<^verbatim>\<open>None.items()\<close> raises \<^verbatim>\<open>AttributeError\<close>.
\<close>

definition EncodeCategorical_transform :: "EncodeCategorical \<Rightarrow> table \<Rightarrow> error + table" where
  "EncodeCategorical_transform self data =
     (case encoders self of
        None \<Rightarrow> Inl AttributeError
      | Some encs \<Rightarrow> encode_items data encs data)"

section \<open>The imputer of scikit-learn\<close>

text \<open>
  \<^verbatim>\<open>Imputer(missing_values=0, strategy='most_frequent')\<close> is library code, used with
  its default \<^verbatim>\<open>axis=0\<close>. Both \<^verbatim>\<open>fit\<close> and \<^verbatim>\<open>transform\<close> pass their input
  through \<^verbatim>\<open>check_array\<close>, which converts every entry to \<^verbatim>\<open>float64\<close> and wants at
  least one row and one column. An integer is rounded as above. A string goes through
  Python's \<^verbatim>\<open>float\<close>, which is not part of the script and is the parameter
  \<open>pyfloat\<close> here: the number a numeral stands for, and \<open>None\<close> where \<^verbatim>\<open>float\<close>
  raises \<^verbatim>\<open>ValueError\<close>, as it does for a census category. (The few strings that
  \<^verbatim>\<open>float\<close> reads as not-a-number or as an infinity, \<^verbatim>\<open>nan\<close> and \<^verbatim>\<open>inf\<close>
  among them, stand for no number; no census field reads so, and they are left out.)
\<close>

fun float_column :: "(string \<Rightarrow> rat option) \<Rightarrow> column \<Rightarrow> error + rat list" where
  "float_column pyfloat (Int64 xs) = Inr (map float64_of_int xs)"
| "float_column pyfloat (Float64 xs) = Inr xs"
| "float_column pyfloat (Object xs) =
     (if list_all (\<lambda>x. pyfloat x \<noteq> None) xs then Inr (map (\<lambda>x. the (pyfloat x)) xs)
      else Inl ValueError)"

fun float_columns :: "(string \<Rightarrow> rat option) \<Rightarrow> column list \<Rightarrow> error + rat list list" where
  "float_columns pyfloat [] = Inr []"
| "float_columns pyfloat (col # cols) =
     (case float_column pyfloat col of
        Inl e \<Rightarrow> Inl e
      | Inr x \<Rightarrow>
          (case float_columns pyfloat cols of Inl e \<Rightarrow> Inl e | Inr X \<Rightarrow> Inr (x # X)))"

definition check_array :: "(string \<Rightarrow> rat option) \<Rightarrow> column list \<Rightarrow> error + rat list list" where
  "check_array pyfloat cols =
     (case float_columns pyfloat cols of
        Inl e \<Rightarrow> Inl e
      | Inr [] \<Rightarrow> Inl ValueError
      | Inr (x # X) \<Rightarrow> if x = [] then Inl ValueError else Inr (x # X))"

text \<open>
  \<^verbatim>\<open>scipy.stats.mode\<close> walks the sorted distinct values and keeps a value only when
  its count is strictly larger than the best so far, so the smallest of the most
  frequent values wins.
\<close>

definition mode_step :: "rat list \<Rightarrow> rat \<Rightarrow> rat \<times> nat \<Rightarrow> rat \<times> nat" where
  "mode_step a score best =
     (if snd best < count_list a score then (score, count_list a score) else best)"

definition stats_mode :: "rat list \<Rightarrow> rat \<times> nat" where
  "stats_mode a = fold (mode_step a) (np_unique a) (0, 0)"

text \<open>
  \<^verbatim>\<open>_most_frequent(array, nan, 0)\<close>: the mode of the observed values, and
  \<^verbatim>\<open>nan\<close> (here \<open>None\<close>) when nothing was observed.
\<close>

definition most_frequent :: "rat list \<Rightarrow> rat option" where
  "most_frequent array =
     (let best = (if array \<noteq> [] then stats_mode array else (0, 0))
      in if snd best = 0 then None else Some (fst best))"

text \<open>\<^verbatim>\<open>fit\<close> stores \<^verbatim>\<open>statistics_\<close>: per column the mode of the entries that are not 0.\<close>

definition Imputer_fit :: "(string \<Rightarrow> rat option) \<Rightarrow> column list \<Rightarrow> error + rat option list" where
  "Imputer_fit pyfloat X =
     (case check_array pyfloat X of
        Inl e \<Rightarrow> Inl e
      | Inr A \<Rightarrow> Inr (map (\<lambda>col. most_frequent (filter (\<lambda>v. v \<noteq> 0) col)) A))"

text \<open>
  \<^verbatim>\<open>transform\<close> discards the columns whose statistic is \<^verbatim>\<open>nan\<close> (those that held
  only missing values at fit time) and writes the statistic over every 0 of the others.
\<close>

fun impute_valid :: "rat option list \<Rightarrow> rat list list \<Rightarrow> rat list list" where
  "impute_valid (None # stats) (col # A) = impute_valid stats A"
| "impute_valid (Some s # stats) (col # A) =
     map (\<lambda>v. if v = 0 then s else v) col # impute_valid stats A"
| "impute_valid stats A = []"

definition Imputer_transform ::
  "(string \<Rightarrow> rat option) \<Rightarrow> rat option list \<Rightarrow> column list \<Rightarrow> error + rat list list" where
  "Imputer_transform pyfloat statistics X =
     (case check_array pyfloat X of
        Inl e \<Rightarrow> Inl e
      | Inr A \<Rightarrow>
          if length A \<noteq> length statistics then Inl ValueError
          else Inr (impute_valid statistics A))"

section \<open>ImputeCategorical\<close>

text \<open>\<^verbatim>\<open>data[columns]\<close> with a list of names: the sub-frame, or \<^verbatim>\<open>KeyError\<close>.\<close>

fun select_columns :: "table \<Rightarrow> string list \<Rightarrow> error + column list" where
  "select_columns data [] = Inr []"
| "select_columns data (c # cs) =
     (case get_column data c of
        Inl e \<Rightarrow> Inl e
      | Inr col \<Rightarrow>
          (case select_columns data cs of Inl e \<Rightarrow> Inl e | Inr X \<Rightarrow> Inr (col # X)))"

text \<open>
  \<^verbatim>\<open>output[columns] = array\<close>: the array must have one column per name
  (\<^verbatim>\<open>ValueError\<close> otherwise); the columns assigned are \<^verbatim>\<open>float64\<close>.
\<close>

fun set_columns :: "table \<Rightarrow> string list \<Rightarrow> rat list list \<Rightarrow> table" where
  "set_columns output (c # cs) (v # vs) = set_columns (set_column output c (Float64 v)) cs vs"
| "set_columns output cs vs = output"

definition assign_columns :: "table \<Rightarrow> string list \<Rightarrow> rat list list \<Rightarrow> error + table" where
  "assign_columns output cs A =
     (if length A \<noteq> length cs then Inl ValueError else Inr (set_columns output cs A))"

record ImputeCategorical =
  imp_columns :: "string list option"
  imputer :: "rat option list option"

definition ImputeCategorical_init :: "string list option \<Rightarrow> ImputeCategorical" where
  "ImputeCategorical_init cols = \<lparr>imp_columns = cols, imputer = None\<rparr>"

definition ImputeCategorical_fit ::
  "(string \<Rightarrow> rat option) \<Rightarrow> ImputeCategorical \<Rightarrow> table \<Rightarrow> int list option \<Rightarrow>
   error + ImputeCategorical" where
  "ImputeCategorical_fit pyfloat self data target =
     (let cols = (case imp_columns self of None \<Rightarrow> map fst data | Some cs \<Rightarrow> cs)
      in case select_columns data cols of
           Inl e \<Rightarrow> Inl e
         | Inr X \<Rightarrow>
             (case Imputer_fit pyfloat X of
                Inl e \<Rightarrow> Inl e
              | Inr statistics \<Rightarrow>
                  Inr (self\<lparr>imp_columns := Some cols, imputer := Some statistics\<rparr>)))"

text \<open>
  \<^verbatim>\<open>transform(self, data)\<close>. Without a fit, \<^verbatim>\<open>self.imputer\<close> is \<^verbatim>\<open>None\<close> and has
  no \<^verbatim>\<open>transform\<close>.
\<close>

definition ImputeCategorical_transform ::
  "(string \<Rightarrow> rat option) \<Rightarrow> ImputeCategorical \<Rightarrow> table \<Rightarrow> error + table" where
  "ImputeCategorical_transform pyfloat self data =
     (case imputer self of
        None \<Rightarrow> Inl AttributeError
      | Some statistics \<Rightarrow>
          (case imp_columns self of
             None \<Rightarrow> Inl KeyError
           | Some cols \<Rightarrow>
               (case select_columns data cols of
                  Inl e \<Rightarrow> Inl e
                | Inr X \<Rightarrow>
                    (case Imputer_transform pyfloat statistics X of
                       Inl e \<Rightarrow> Inl e
                     | Inr A \<Rightarrow> assign_columns data cols A))))"

section \<open>The pipeline\<close>

text \<open>
  \<^verbatim>\<open>Pipeline\<close> is library code. Its \<^verbatim>\<open>fit(X, y)\<close> calls
  \<^verbatim>\<open>fit_transform(Xt, y)\<close> on every step but the last, feeding each the output of
  the one before, and then \<^verbatim>\<open>fit(Xt, y)\<close> on the last step. Both classes of the
  script inherit \<^verbatim>\<open>fit_transform\<close> from \<^verbatim>\<open>TransformerMixin\<close>:
  \<^verbatim>\<open>self.fit(X, y).transform(X)\<close>. \<^verbatim>\<open>predict(X)\<close> calls \<^verbatim>\<open>transform\<close> on every
  step but the last and \<^verbatim>\<open>predict\<close> on the last.

  The last step of the script's pipeline is \<^verbatim>\<open>LogisticRegression()\<close>, a numerical
  optimiser; it is a parameter here: \<open>clf_fit\<close> and \<open>clf_predict\<close>. The parameter
  \<open>pyfloat\<close> is handed down to the imputer.
\<close>

datatype transformer = Encoder EncodeCategorical | Imputer ImputeCategorical

fun transform :: "(string \<Rightarrow> rat option) \<Rightarrow> transformer \<Rightarrow> table \<Rightarrow> error + table" where
  "transform pyfloat (Encoder self) X = EncodeCategorical_transform self X"
| "transform pyfloat (Imputer self) X = ImputeCategorical_transform pyfloat self X"

fun fit_transform ::
  "(string \<Rightarrow> rat option) \<Rightarrow> transformer \<Rightarrow> table \<Rightarrow> int list option \<Rightarrow>
   error + transformer \<times> table" where
  "fit_transform pyfloat (Encoder self) X y =
     (case EncodeCategorical_fit self X y of
        Inl e \<Rightarrow> Inl e
      | Inr fitted \<Rightarrow>
          (case EncodeCategorical_transform fitted X of
             Inl e \<Rightarrow> Inl e
           | Inr Xt \<Rightarrow> Inr (Encoder fitted, Xt)))"
| "fit_transform pyfloat (Imputer self) X y =
     (case ImputeCategorical_fit pyfloat self X y of
        Inl e \<Rightarrow> Inl e
      | Inr fitted \<Rightarrow>
          (case ImputeCategorical_transform pyfloat fitted X of
             Inl e \<Rightarrow> Inl e
           | Inr Xt \<Rightarrow> Inr (Imputer fitted, Xt)))"

fun fit_steps ::
  "(string \<Rightarrow> rat option) \<Rightarrow> (string \<times> transformer) list \<Rightarrow> table \<Rightarrow> int list \<Rightarrow>
   error + (string \<times> transformer) list \<times> table" where
  "fit_steps pyfloat [] Xt y = Inr ([], Xt)"
| "fit_steps pyfloat ((name, t) # steps) Xt y =
     (case fit_transform pyfloat t Xt (Some y) of
        Inl e \<Rightarrow> Inl e
      | Inr (fitted, Xt') \<Rightarrow>
          (case fit_steps pyfloat steps Xt' y of
             Inl e \<Rightarrow> Inl e
           | Inr (steps', Xt'') \<Rightarrow> Inr ((name, fitted) # steps', Xt'')))"

fun transform_steps ::
  "(string \<Rightarrow> rat option) \<Rightarrow> (string \<times> transformer) list \<Rightarrow> table \<Rightarrow> error + table" where
  "transform_steps pyfloat [] Xt = Inr Xt"
| "transform_steps pyfloat ((name, t) # steps) Xt =
     (case transform pyfloat t Xt of
        Inl e \<Rightarrow> Inl e
      | Inr Xt' \<Rightarrow> transform_steps pyfloat steps Xt')"

definition Pipeline_fit ::
  "(string \<Rightarrow> rat option) \<Rightarrow> (table \<Rightarrow> int list \<Rightarrow> error + 'm) \<Rightarrow>
   (string \<times> transformer) list \<Rightarrow> table \<Rightarrow> int list \<Rightarrow>
   error + (string \<times> transformer) list \<times> 'm" where
  "Pipeline_fit pyfloat clf_fit steps X y =
     (case fit_steps pyfloat steps X y of
        Inl e \<Rightarrow> Inl e
      | Inr (steps', Xt) \<Rightarrow>
          (case clf_fit Xt y of Inl e \<Rightarrow> Inl e | Inr m \<Rightarrow> Inr (steps', m)))"

definition Pipeline_predict ::
  "(string \<Rightarrow> rat option) \<Rightarrow> ('m \<Rightarrow> table \<Rightarrow> error + int list) \<Rightarrow>
   (string \<times> transformer) list \<times> 'm \<Rightarrow> table \<Rightarrow> error + int list" where
  "Pipeline_predict pyfloat clf_predict fitted X =
     (case transform_steps pyfloat (fst fitted) X of
        Inl e \<Rightarrow> Inl e
      | Inr Xt \<Rightarrow> clf_predict (snd fitted) Xt)"

text \<open>
  The steps of \<^verbatim>\<open>census\<close> in front of the classifier; \<open>keys\<close> stands for
  \<^verbatim>\<open>dataset.categorical_features.keys()\<close>.
\<close>

definition census :: "string list \<Rightarrow> (string \<times> transformer) list" where
  "census keys =
     [(''encoder'', Encoder (EncodeCategorical_init (Some keys))),
      (''imputer'', Imputer (ImputeCategorical_init
          (Some [''workclass'', ''native-country'', ''occupation''])))]"

section \<open>Frames as mutable objects\<close>

text \<open>
  \<^verbatim>\<open>EncodeCategorical.transform\<close> copies its argument and then assigns to columns of
  the copy. To tell the copy from the argument, frames live in a store and are named by
  their address; \<^verbatim>\<open>data.copy()\<close> allocates a new frame with the same contents.
\<close>

type_synonym store = "table list"

definition df_copy :: "store \<Rightarrow> nat \<Rightarrow> nat \<times> store" where
  "df_copy s r = (length s, s @ [s ! r])"

definition df_setitem :: "store \<Rightarrow> nat \<Rightarrow> string \<Rightarrow> column \<Rightarrow> store" where
  "df_setitem s r c col = s[r := set_column (s ! r) c col]"

fun encode_items_st ::
  "(string \<times> column) list \<Rightarrow> nat \<Rightarrow> nat \<Rightarrow> store \<Rightarrow> (error + nat) \<times> store" where
  "encode_items_st [] data output s = (Inr output, s)"
| "encode_items_st ((c, encoder) # items) data output s =
     (case get_column (s ! data) c of
        Inl e \<Rightarrow> (Inl e, s)
      | Inr col \<Rightarrow>
          (case LabelEncoder_transform encoder col of
             Inl e \<Rightarrow> (Inl e, s)
           | Inr codes \<Rightarrow> encode_items_st items data output (df_setitem s output c codes)))"

text \<open>
  \<^verbatim>\<open>transform(self, data)\<close> on the store: the result is the address of \<^verbatim>\<open>output\<close>,
  or the exception raised, together with the store as the call leaves it.
\<close>

definition EncodeCategorical_transform_st ::
  "EncodeCategorical \<Rightarrow> nat \<Rightarrow> store \<Rightarrow> (error + nat) \<times> store" where
  "EncodeCategorical_transform_st self data s =
     (case df_copy s data of
        (output, s') \<Rightarrow>
          (case encoders self of
             None \<Rightarrow> (Inl AttributeError, s')
           | Some encs \<Rightarrow> encode_items_st encs data output s'))"

section \<open>Targets\<close>

text \<open>\<^verbatim>\<open>y.rstrip(chars)\<close>: drops every trailing character that is among \<^verbatim>\<open>chars\<close>.\<close>

definition rstrip :: "string \<Rightarrow> string \<Rightarrow> string" where
  "rstrip chars y = rev (dropWhile (\<lambda>ch. ch \<in> set chars) (rev y))"

text \<open>\<^verbatim>\<open>yencode = LabelEncoder().fit(dataset.target)\<close>\<close>

definition yencode :: "string list \<Rightarrow> column" where
  "yencode target = LabelEncoder_fit (Object target)"

text \<open>\<^verbatim>\<open>y_true = yencode.transform([y.rstrip(".") for y in dataset.target_test])\<close>\<close>

definition y_true :: "column \<Rightarrow> string list \<Rightarrow> error + column" where
  "y_true encoder target_test =
     LabelEncoder_transform encoder (Object (map (rstrip ''.'') target_test))"

text \<open>
  \<^verbatim>\<open>inverse_transform(y)\<close> computes the codes that are no index of \<^verbatim>\<open>classes_\<close>
  (\<^verbatim>\<open>np.setdiff1d\<close>, sorted and distinct) and raises \<^verbatim>\<open>ValueError\<close> \<^verbatim>\<open>if diff\<close>.
  An array of several elements has no truth value, which is a \<^verbatim>\<open>ValueError\<close> too; the
  one-element array \<^verbatim>\<open>[0]\<close> is false, and the indexing that follows fails.
\<close>

definition inverse_transform :: "'a list \<Rightarrow> int list \<Rightarrow> error + 'a list" where
  "inverse_transform classes y =
     (let diff = np_unique (filter (\<lambda>i. i < 0 \<or> int (length classes) \<le> i) y)
      in if diff = [] then Inr (map (\<lambda>i. classes ! nat i) y)
         else if diff = [0] then Inl IndexError
         else Inl ValueError)"

section \<open>The metadata\<close>

definition names :: "string list" where
  "names =
    [''age'', ''workclass'', ''fnlwgt'', ''education'', ''education-num'',
     ''marital-status'', ''occupation'', ''relationship'', ''race'', ''sex'',
     ''capital-gain'', ''capital-loss'', ''hours-per-week'', ''native-country'',
     ''income'']"

text \<open>\<^verbatim>\<open>Series.unique()\<close>: the distinct values in order of first appearance.\<close>

definition pd_unique :: "'a list \<Rightarrow> 'a list" where
  "pd_unique xs = rev (remdups (rev xs))"

fun column_unique :: "column \<Rightarrow> column" where
  "column_unique (Object xs) = Object (pd_unique xs)"
| "column_unique (Int64 xs) = Int64 (pd_unique xs)"
| "column_unique (Float64 xs) = Float64 (pd_unique xs)"

record meta =
  target_names :: column
  feature_names :: "string list"
  categorical_features :: "(string \<times> string list) list"

text \<open>
  The comprehension of \<^verbatim>\<open>categorical_features\<close>: the columns of dtype
  \<^verbatim>\<open>object\<close>, each with its distinct values.
\<close>

fun object_domains :: "table \<Rightarrow> (string \<times> string list) list" where
  "object_domains [] = []"
| "object_domains ((c, Object xs) # data) = (c, pd_unique xs) # object_domains data"
| "object_domains ((c, Int64 xs) # data) = object_domains data"
| "object_domains ((c, Float64 xs) # data) = object_domains data"

text \<open>
  The dictionary \<^verbatim>\<open>meta\<close> built from the training frame \<^verbatim>\<open>data\<close>, which was read
  with \<^verbatim>\<open>names=names\<close>. \<^verbatim>\<open>data.income\<close> raises \<^verbatim>\<open>AttributeError\<close> when the frame
  has no such column.
\<close>

definition make_meta :: "table \<Rightarrow> error + meta" where
  "make_meta data =
     (case map_of data ''income'' of
        None \<Rightarrow> Inl AttributeError
      | Some income \<Rightarrow>
          Inr \<lparr>target_names = column_unique income,
               feature_names = map fst data,
               categorical_features = object_domains data\<rparr>)"

section \<open>The command line application\<close>

text \<open>
  The console: the lines still to be read from standard input, and what was written so
  far, \<^verbatim>\<open>raw_input\<close> prompts and \<^verbatim>\<open>print\<close>ed lines. \<^verbatim>\<open>raw_input\<close> at the end of
  the input raises \<^verbatim>\<open>EOFError\<close>.
\<close>

datatype event = RawInput string | Print string

datatype cell = Str string | Num int

text \<open>
  The text of a list of strings as \<^verbatim>\<open>format\<close> shows it: the \<^verbatim>\<open>repr\<close> of each
  string, as Python 2 writes a \<^verbatim>\<open>str\<close>. The quote is the apostrophe, or the double
  quote when the string holds an apostrophe and no double quote; the quote and the
  backslash are escaped with a backslash, tab, newline and return are written
  \<^verbatim>\<open>\t\<close>, \<^verbatim>\<open>\n\<close>, \<^verbatim>\<open>\r\<close>, and any other byte below the blank or from 0x7f on
  is written \<^verbatim>\<open>\x\<close> and two hexadecimal digits.
\<close>

definition hex_digit :: "nat \<Rightarrow> char" where
  "hex_digit n = ''0123456789abcdef'' ! n"

definition repr_char :: "char \<Rightarrow> char \<Rightarrow> string" where
  "repr_char quote ch =
     (if ch = quote \<or> ch = CHR 0x5C then [CHR 0x5C, ch]
      else if ch = CHR 0x09 then [CHR 0x5C, CHR ''t'']
      else if ch = CHR 0x0A then [CHR 0x5C, CHR ''n'']
      else if ch = CHR 0x0D then [CHR 0x5C, CHR ''r'']
      else if (of_char ch :: nat) < 32 \<or> 127 \<le> (of_char ch :: nat)
        then [CHR 0x5C, CHR ''x'', hex_digit (of_char ch div 16), hex_digit (of_char ch mod 16)]
      else [ch])"

definition repr_str :: "string \<Rightarrow> string" where
  "repr_str x =
     (let quote = (if CHR 0x27 \<in> set x \<and> CHR 0x22 \<notin> set x then CHR 0x22 else CHR 0x27)
      in [quote] @ concat (map (repr_char quote) x) @ [quote])"

fun join :: "string \<Rightarrow> string list \<Rightarrow> string" where
  "join sep [] = []"
| "join sep [x] = x"
| "join sep (x # y # xs) = x @ sep @ join sep (y # xs)"

definition repr_list :: "string list \<Rightarrow> string" where
  "repr_list xs = ''['' @ join '', '' (map repr_str xs) @ '']''"

text \<open>The truth value of \<^verbatim>\<open>valid\<close>: \<^verbatim>\<open>None\<close> and the empty list are false.\<close>

fun truthy :: "string list option \<Rightarrow> bool" where
  "truthy None = False"
| "truthy (Some xs) = (xs \<noteq> [])"

text \<open>The test \<^verbatim>\<open>valid and val not in valid\<close>.\<close>

definition rejects :: "string list option \<Rightarrow> string \<Rightarrow> bool" where
  "rejects valid val = (truthy valid \<and> val \<notin> set (the valid))"

text \<open>What the loop writes: the prompt of \<^verbatim>\<open>raw_input\<close>, and the complaint.\<close>

definition prompt :: "string \<Rightarrow> event" where
  "prompt column = RawInput (''enter '' @ column @ '' >'')"

definition complaint :: "string list option \<Rightarrow> event" where
  "complaint valid = Print (''Not valid, choose one of '' @ repr_list (the valid))"

text \<open>
  The \<^verbatim>\<open>while True\<close> loop of \<^verbatim>\<open>predict\<close> for one column: one round per line read.
\<close>

fun prompt_loop ::
  "string \<Rightarrow> string list option \<Rightarrow> string list \<Rightarrow> event list \<Rightarrow>
   error + string \<times> string list \<times> event list" where
  "prompt_loop column valid [] out = Inl EOFError"
| "prompt_loop column valid (line # stdin) out =
     (let val = '' '' @ line;
          out' = out @ [prompt column]
      in if rejects valid val
         then prompt_loop column valid stdin (out' @ [complaint valid])
         else Inr (val, stdin, out'))"

text \<open>
  The \<^verbatim>\<open>for\<close> loop over \<^verbatim>\<open>meta['feature_names'][:-1]\<close>, filling the dictionary
  \<^verbatim>\<open>data\<close>.
\<close>

fun collect ::
  "string list \<Rightarrow> (string \<times> string list) list \<Rightarrow> (string \<times> cell) list \<Rightarrow> string list \<Rightarrow>
   event list \<Rightarrow> error + (string \<times> cell) list \<times> string list \<times> event list" where
  "collect [] cats data stdin out = Inr (data, stdin, out)"
| "collect (column # columns) cats data stdin out =
     (if column = ''fnlwgt''
      then collect columns cats (AList.update column (Num 189778) data) stdin out
      else
        (case prompt_loop column (map_of cats column) stdin out of
           Inl e \<Rightarrow> Inl e
         | Inr (val, stdin', out') \<Rightarrow>
             collect columns cats (AList.update column (Str val) data) stdin' out'))"

text \<open>
  \<^verbatim>\<open>pd.DataFrame([data])\<close>: a frame of one row, its columns the keys of the
  dictionary in sorted order.
\<close>

fun cell_column :: "cell \<Rightarrow> column" where
  "cell_column (Str x) = Object [x]"
| "cell_column (Num n) = Int64 [n]"

definition DataFrame :: "(string \<times> cell) list \<Rightarrow> table" where
  "DataFrame data = map (\<lambda>(k, v). (k, cell_column v)) (sort_key fst data)"

text \<open>
  \<^verbatim>\<open>predict(model, meta)\<close>. \<open>model\<close> is the \<^verbatim>\<open>predict\<close> method of the loaded pipeline
  and \<open>classes\<close> the \<^verbatim>\<open>classes_\<close> of the global \<^verbatim>\<open>yencode\<close>, which is fitted on the
  income strings. Taking the first label of an empty array raises \<^verbatim>\<open>IndexError\<close>. The
  result is the console when the function returns.
\<close>

definition predict ::
  "(table \<Rightarrow> error + int list) \<Rightarrow> meta \<Rightarrow> string list \<Rightarrow> string list \<Rightarrow>
   error + string list \<times> event list" where
  "predict model m classes stdin =
     (case collect (butlast (feature_names m)) (categorical_features m) [] stdin [] of
        Inl e \<Rightarrow> Inl e
      | Inr (data, stdin', out) \<Rightarrow>
          (case model (DataFrame data) of
             Inl e \<Rightarrow> Inl e
           | Inr yhat \<Rightarrow>
               (case inverse_transform classes yhat of
                  Inl e \<Rightarrow> Inl e
                | Inr [] \<Rightarrow> Inl IndexError
                | Inr (label # labels) \<Rightarrow>
                    Inr (stdin', out @ [Print (''We predict that you make '' @ label)]))))"

section \<open>The dialogue, as the specification tells it\<close>

text \<open>
  A session at the console is told feature by feature: the entries that are turned down,
  and then the one that is taken. An entry is turned down when the feature has a
  non-empty domain and the entry with a blank in front of it is not in the domain.
\<close>

type_synonym answer = "string list \<times> string"

definition turned_down :: "string list option \<Rightarrow> string \<Rightarrow> bool" where
  "turned_down valid entry =
     (case valid of None \<Rightarrow> False | Some d \<Rightarrow> d \<noteq> [] \<and> CHR '' '' # entry \<notin> set d)"

definition fits :: "string list option \<Rightarrow> answer \<Rightarrow> bool" where
  "fits valid a = (list_all (turned_down valid) (fst a) \<and> \<not> turned_down valid (snd a))"

text \<open>What is typed in a session, and what the console shows for it.\<close>

definition typed :: "answer list \<Rightarrow> string list" where
  "typed answers = concat (map (\<lambda>a. fst a @ [snd a]) answers)"

definition dialogue :: "string \<Rightarrow> string list option \<Rightarrow> answer \<Rightarrow> event list" where
  "dialogue column valid a =
     concat (map (\<lambda>entry. [prompt column, complaint valid]) (fst a)) @ [prompt column]"

definition transcript ::
  "(string \<times> string list) list \<Rightarrow> string list \<Rightarrow> answer list \<Rightarrow> event list" where
  "transcript cats columns answers =
     concat (map (\<lambda>(c, a). dialogue c (map_of cats c) a) (zip columns answers))"

text \<open>The features that are asked for: all but \<^verbatim>\<open>fnlwgt\<close>.\<close>

definition asked :: "string list \<Rightarrow> string list" where
  "asked columns = filter (\<lambda>c. c \<noteq> ''fnlwgt'') columns"

text \<open>The number of distinct values of a column.\<close>

fun column_distinct :: "column \<Rightarrow> nat" where
  "column_distinct (Object xs) = card (set xs)"
| "column_distinct (Int64 xs) = card (set xs)"
| "column_distinct (Float64 xs) = card (set xs)"

section \<open>Sample records\<close>

text \<open>
  A few records in the shape of the census file (features, then the income of each
  record), and a frame with all fifteen columns of \<^verbatim>\<open>names\<close>.
\<close>

definition adult_data :: table where
  "adult_data =
    [(''age'', Int64 [39, 50, 38, 52, 54]),
     (''workclass'',
        Object ['' State-gov'', '' Private'', '' Private'', '' Self-emp-not-inc'', '' ?'']),
     (''occupation'',
        Object ['' Adm-clerical'', '' Exec-managerial'', '' Handlers-cleaners'',
                '' Exec-managerial'', '' ?'']),
     (''native-country'',
        Object ['' United-States'', '' United-States'', '' United-States'', '' ?'', '' South''])]"

definition adult_target :: "string list" where
  "adult_target = ['' <=50K'', '' <=50K'', '' <=50K'', '' >50K'', '' >50K'']"

definition census_sample :: table where
  "census_sample =
    [(''age'', Int64 [39, 52]),
     (''workclass'', Object ['' State-gov'', '' Self-emp-not-inc'']),
     (''fnlwgt'', Int64 [77516, 209642]),
     (''education'', Object ['' Bachelors'', '' HS-grad'']),
     (''education-num'', Int64 [13, 9]),
     (''marital-status'', Object ['' Never-married'', '' Married-civ-spouse'']),
     (''occupation'', Object ['' Adm-clerical'', '' Exec-managerial'']),
     (''relationship'', Object ['' Not-in-family'', '' Husband'']),
     (''race'', Object ['' White'', '' White'']),
     (''sex'', Object ['' Male'', '' Male'']),
     (''capital-gain'', Int64 [2174, 0]),
     (''capital-loss'', Int64 [0, 0]),
     (''hours-per-week'', Int64 [40, 45]),
     (''native-country'', Object ['' United-States'', '' United-States'']),
     (''income'', Object ['' <=50K'', '' >50K''])]"

text \<open>The entries of a column as \<^verbatim>\<open>float64\<close>, when it converts.\<close>

definition floats :: "(string \<Rightarrow> rat option) \<Rightarrow> column \<Rightarrow> rat list" where
  "floats pyfloat col = (case float_column pyfloat col of Inl e \<Rightarrow> [] | Inr xs \<Rightarrow> xs)"

text \<open>
  A stand-in for \<^verbatim>\<open>float\<close> on the strings of these records: a string of decimal
  digits, blanks in front allowed, is the number it spells, rounded as an integer is;
  a category name is no numeral.
\<close>

definition census_float :: "string \<Rightarrow> rat option" where
  "census_float x =
     (let t = dropWhile (\<lambda>ch. ch = CHR '' '') x
      in if t \<noteq> [] \<and> list_all (\<lambda>ch. CHR ''0'' \<le> ch \<and> ch \<le> CHR ''9'') t
         then Some (of_nat (round53 (foldl (\<lambda>n ch. 10 * n + (of_char ch - 48)) 0 t)))
         else None)"

text \<open>
  The names the script passes to the encoder for these records, and a stand-in for the
  classifier: it learns the first label and predicts it for every row.
\<close>

definition census_keys :: "string list" where
  "census_keys = [''workclass'', ''occupation'', ''native-country'']"

definition stub_fit :: "table \<Rightarrow> int list \<Rightarrow> error + int" where
  "stub_fit X y = (case y of [] \<Rightarrow> Inl ValueError | c # cs \<Rightarrow> Inr c)"

definition stub_predict :: "int \<Rightarrow> table \<Rightarrow> error + int list" where
  "stub_predict m X =
     (case X of [] \<Rightarrow> Inl ValueError | (c, col) # cols \<Rightarrow> Inr (replicate (column_len col) m))"

text \<open>The columns a fitted encoder rewrites.\<close>

definition fitted_columns :: "EncodeCategorical \<Rightarrow> string list" where
  "fitted_columns self = (case encoders self of None \<Rightarrow> [] | Some encs \<Rightarrow> map fst encs)"

text \<open>The encoder fitted on the work class of the sample records.\<close>

definition workclass_encoder :: EncodeCategorical where
  "workclass_encoder =
     \<lparr>enc_columns = Some [''workclass''],
      encoders = Some [(''workclass'',
        Object ['' ?'', '' Private'', '' Self-emp-not-inc'', '' State-gov''])]\<rparr>"

text \<open>
  The metadata of \<open>census_sample\<close>, a stand-in for the \<^verbatim>\<open>predict\<close> of a fitted
  pipeline that answers with code 0, and one session at the console, in which the first
  entry for the sex is turned down.
\<close>

definition census_meta :: meta where
  "census_meta =
     \<lparr>target_names = Object ['' <=50K'', '' >50K''],
      feature_names = names,
      categorical_features =
        [(''workclass'', ['' State-gov'', '' Self-emp-not-inc'']),
         (''education'', ['' Bachelors'', '' HS-grad'']),
         (''marital-status'', ['' Never-married'', '' Married-civ-spouse'']),
         (''occupation'', ['' Adm-clerical'', '' Exec-managerial'']),
         (''relationship'', ['' Not-in-family'', '' Husband'']),
         (''race'', ['' White'']),
         (''sex'', ['' Male'']),
         (''native-country'', ['' United-States'']),
         (''income'', ['' <=50K'', '' >50K''])]\<rparr>"

definition always_low :: "table \<Rightarrow> error + int list" where
  "always_low X = Inr [0]"

definition census_session :: "answer list" where
  "census_session =
     [([], ''39''), ([], ''State-gov''), ([], ''Bachelors''), ([], ''13''),
      ([], ''Never-married''), ([], ''Adm-clerical''), ([], ''Not-in-family''),
      ([], ''White''), ([''banana''], ''Male''), ([], ''2174''), ([], ''0''), ([], ''40''),
      ([], ''United-States'')]"

section \<open>The encoder on its training frame\<close>

lemma searchsorted_count:
  "sorted a \<Longrightarrow> searchsorted a v = length (filter (\<lambda>x. x < v) a)"
proof (induction a)
  case Nil
  then show ?case by (simp add: searchsorted_def)
next
  case (Cons x a)
  show ?case
  proof (cases "x < v")
    case True
    with Cons show ?thesis by (simp add: searchsorted_def)
  next
    case False
    with Cons.prems have "\<forall>y\<in>set a. \<not> y < v" by auto
    then have "filter (\<lambda>x. x < v) a = []" by (simp add: filter_empty_conv)
    with False show ?thesis by (simp add: searchsorted_def)
  qed
qed

lemma searchsorted_inj:
  assumes "sorted a" "distinct a"
  shows "inj_on (searchsorted a) (set a)"
proof (rule inj_onI)
  fix x y assume x: "x \<in> set a" and y: "y \<in> set a"
    and eq: "searchsorted a x = searchsorted a y"
  have strict: "searchsorted a u < searchsorted a w" if "u \<in> set a" "u < w" for u w
  proof -
    have "{z. z < u} \<inter> set a \<subset> {z. z < w} \<inter> set a"
      using that by auto
    then have "card ({z. z < u} \<inter> set a) < card ({z. z < w} \<inter> set a)"
      by (intro psubset_card_mono) auto
    then show ?thesis
      using assms by (simp add: searchsorted_count distinct_length_filter)
  qed
  show "x = y"
  proof (rule ccontr)
    assume "x \<noteq> y"
    then consider "x < y" | "y < x" by (meson less_linear)
    then show False
      using strict [OF x, of y] strict [OF y, of x] eq by cases simp_all
  qed
qed

lemma np_unique_props: "sorted (np_unique xs)" "distinct (np_unique xs)" "set (np_unique xs) = set xs"
  by (simp_all add: np_unique_def)

lemma encode_labels_fit:
  "\<exists>codes. encode_labels (np_unique xs) xs = Inr (Int64 codes)
     \<and> length codes = length xs \<and> card (set codes) = card (set xs)"
proof -
  let ?f = "\<lambda>v. int (searchsorted (np_unique xs) v)"
  have "inj_on (searchsorted (np_unique xs)) (set xs)"
    using searchsorted_inj [of "np_unique xs"] by (simp add: np_unique_props)
  then have "inj_on ?f (set xs)"
    by (auto simp: inj_on_def)
  then have "card (?f ` set xs) = card (set xs)"
    by (rule card_image)
  then show ?thesis
    by (simp add: encode_labels_def list_all_iff np_unique_props)
qed

lemma LabelEncoder_fit_transform:
  "\<exists>codes. LabelEncoder_transform (LabelEncoder_fit col) col = Inr (Int64 codes)
     \<and> length codes = column_len col \<and> card (set codes) = column_distinct col"
  by (cases col) (simp_all add: encode_labels_fit)


lemma get_column_Inr [simp]: "get_column data c = Inr col \<longleftrightarrow> map_of data c = Some col"
  by (simp add: get_column_def split: option.splits)

lemma map_of_set_column: "map_of (set_column out0 c col) = (map_of out0)(c \<mapsto> col)"
  by (simp add: set_column_def update_conv')

lemma names_set_column: "c \<in> fst ` set out0 \<Longrightarrow> map fst (set_column out0 c col) = map fst out0"
  by (simp add: set_column_def update_keys)

lemma fit_encoders_present:
  "set cs \<subseteq> fst ` set data \<Longrightarrow>
   fit_encoders data cs = Inr (map (\<lambda>c. (c, LabelEncoder_fit (the (map_of data c)))) cs)"
proof (induction cs)
  case Nil
  then show ?case by simp
next
  case (Cons c cs)
  then obtain col where "map_of data c = Some col"
    by (metis domD dom_map_of_conv_image_fst list.set_intros(1) subsetD)
  with Cons show ?case by (simp add: get_column_def)
qed

lemma encode_items_frame:
  "encode_items data items out0 = Inr out \<Longrightarrow> c \<notin> fst ` set items \<Longrightarrow>
   map_of out c = map_of out0 c"
proof (induction items arbitrary: out0)
  case Nil
  then show ?case by simp
next
  case (Cons item items)
  obtain c' e where item: "item = (c', e)" by (cases item)
  from Cons.prems item obtain col codes where
    step: "encode_items data items (set_column out0 c' codes) = Inr out"
    by (auto split: sum.splits)
  from Cons.prems item have "c \<noteq> c'" "c \<notin> fst ` set items" by auto
  with Cons.IH [OF step] show ?case by (simp add: map_of_set_column)
qed

lemma encode_items_hit:
  "encode_items data items out0 = Inr out \<Longrightarrow> distinct (map fst items) \<Longrightarrow>
   (c, e) \<in> set items \<Longrightarrow>
   \<exists>col codes. map_of data c = Some col \<and> LabelEncoder_transform e col = Inr codes
      \<and> map_of out c = Some codes"
proof (induction items arbitrary: out0)
  case Nil
  then show ?case by simp
next
  case (Cons item items)
  obtain c' e' where item: "item = (c', e')" by (cases item)
  from Cons.prems(1) item obtain col codes where
    col: "map_of data c' = Some col" and codes: "LabelEncoder_transform e' col = Inr codes"
    and step: "encode_items data items (set_column out0 c' codes) = Inr out"
    by (auto split: sum.splits)
  show ?case
  proof (cases "(c, e) = (c', e')")
    case True
    from Cons.prems(2) item have "c' \<notin> fst ` set items" by simp
    from encode_items_frame [OF step this] True col codes show ?thesis
      by (simp add: map_of_set_column)
  next
    case False
    with Cons.prems item have "(c, e) \<in> set items" "distinct (map fst items)" by auto
    with Cons.IH [OF step] show ?thesis by blast
  qed
qed

lemma encode_items_succeeds:
  "(\<And>c e. (c, e) \<in> set items \<Longrightarrow>
      \<exists>col codes. map_of data c = Some col \<and> LabelEncoder_transform e col = Inr codes) \<Longrightarrow>
   \<exists>out. encode_items data items out0 = Inr out"
proof (induction items arbitrary: out0)
  case Nil
  then show ?case by simp
next
  case (Cons item items)
  obtain c' e' where item: "item = (c', e')" by (cases item)
  from Cons.prems [of c' e'] item obtain col codes where
    "map_of data c' = Some col" "LabelEncoder_transform e' col = Inr codes" by auto
  moreover have "\<exists>out. encode_items data items (set_column out0 c' codes) = Inr out"
    using Cons.prems by (intro Cons.IH) auto
  ultimately show ?case using item by (simp add: get_column_def)
qed

text \<open>
  Claim C2. Fitting the encoder on a frame and transforming the same frame succeeds
  whenever the fitted columns exist, and in every fitted column the number of distinct
  integer codes equals the number of distinct values the column had.
\<close>

theorem EncodeCategorical_fit_transform_cardinality:
  assumes fitted: "fitted = (case cols of None \<Rightarrow> map fst data | Some cs \<Rightarrow> cs)"
    and present: "set fitted \<subseteq> fst ` set data"
  shows "\<exists>enc out.
      EncodeCategorical_fit (EncodeCategorical_init cols) data target = Inr enc
    \<and> EncodeCategorical_transform enc data = Inr out
    \<and> (\<forall>c\<in>set fitted. \<exists>col codes.
          map_of data c = Some col \<and> map_of out c = Some (Int64 codes)
        \<and> card (set codes) = column_distinct col)"
proof -
  define items where "items = map (\<lambda>c. (c, LabelEncoder_fit (the (map_of data c)))) (remdups fitted)"
  define enc where "enc = (EncodeCategorical_init cols)\<lparr>enc_columns := Some fitted, encoders := Some items\<rparr>"
  have fit: "EncodeCategorical_fit (EncodeCategorical_init cols) data target = Inr enc"
    using fit_encoders_present [of "remdups fitted" data] present fitted
    by (simp add: EncodeCategorical_fit_def EncodeCategorical_init_def enc_def items_def Let_def)
  have item: "\<exists>col codes. map_of data c = Some col \<and> e = LabelEncoder_fit col
      \<and> LabelEncoder_transform e col = Inr (Int64 codes)
      \<and> card (set codes) = column_distinct col" if "(c, e) \<in> set items" for c e
  proof -
    from that have c: "c \<in> set fitted" and e: "e = LabelEncoder_fit (the (map_of data c))"
      by (auto simp: items_def)
    from c present obtain col where col: "map_of data c = Some col"
      by (metis domD dom_map_of_conv_image_fst subsetD)
    with e LabelEncoder_fit_transform [of col] show ?thesis by auto
  qed
  then obtain out where out: "encode_items data items data = Inr out"
    using encode_items_succeeds [of items data data] by blast
  have dist: "distinct (map fst items)"
    by (simp add: items_def comp_def)
  have "\<exists>col codes. map_of data c = Some col \<and> map_of out c = Some (Int64 codes)
        \<and> card (set codes) = column_distinct col" if "c \<in> set fitted" for c
  proof -
    from that have mem: "(c, LabelEncoder_fit (the (map_of data c))) \<in> set items"
      by (simp add: items_def)
    from item [OF mem] encode_items_hit [OF out dist mem] show ?thesis by auto
  qed
  moreover have "EncodeCategorical_transform enc data = Inr out"
    using out by (simp add: EncodeCategorical_transform_def enc_def)
  ultimately show ?thesis using fit by blast
qed

theorem EncodeCategorical_fit_transform_cardinality_witness:
  "\<exists>enc out.
      EncodeCategorical_fit (EncodeCategorical_init (Some [''workclass''])) adult_data None = Inr enc
    \<and> EncodeCategorical_transform enc adult_data = Inr out
    \<and> (\<exists>codes. map_of out ''workclass'' = Some (Int64 codes) \<and> card (set codes) = 4)"
  using EncodeCategorical_fit_transform_cardinality
          [where fitted = "[''workclass'']" and cols = "Some [''workclass'']"
             and data = adult_data and target = None]
  by (simp add: adult_data_def eval_nat_numeral)

section \<open>The imputer on its training frame\<close>

lemma count_list_pos: "x \<in> set a \<Longrightarrow> 0 < count_list a x"
  by (induction a) auto

lemma fold_mode_step:
  "fold (mode_step a) vs best = r \<Longrightarrow>
     (r = best \<or> (fst r \<in> set vs \<and> snd r = count_list a (fst r)))
   \<and> snd best \<le> snd r \<and> (\<forall>v\<in>set vs. count_list a v \<le> snd r)"
proof (induction vs arbitrary: best)
  case Nil
  then show ?case by simp
next
  case (Cons v vs)
  from Cons.prems have "fold (mode_step a) vs (mode_step a v best) = r" by simp
  from Cons.IH [OF this] show ?case
    by (auto simp: mode_step_def split: if_splits)
qed

lemma stats_mode_most_frequent:
  assumes "a \<noteq> []"
  shows "fst (stats_mode a) \<in> set a
     \<and> snd (stats_mode a) = count_list a (fst (stats_mode a))
     \<and> (\<forall>v. count_list a v \<le> count_list a (fst (stats_mode a)))"
proof -
  let ?r = "stats_mode a"
  from fold_mode_step [of a "np_unique a" "(0, 0)" ?r]
  have alt: "?r = (0, 0) \<or> (fst ?r \<in> set a \<and> snd ?r = count_list a (fst ?r))"
    and ub: "\<forall>v\<in>set a. count_list a v \<le> snd ?r"
    by (simp_all add: stats_mode_def np_unique_props)
  from assms obtain x where x: "x \<in> set a" by (cases a) auto
  then have "0 < count_list a x" by (rule count_list_pos)
  with ub x have pos: "0 < snd ?r" by fastforce
  with alt have mem: "fst ?r \<in> set a" and cnt: "snd ?r = count_list a (fst ?r)" by auto
  have "count_list a v \<le> count_list a (fst ?r)" for v
  proof (cases "v \<in> set a")
    case True
    with ub cnt show ?thesis by simp
  next
    case False
    then show ?thesis by simp
  qed
  with mem cnt show ?thesis by blast
qed

lemma count_list_filter: "P v \<Longrightarrow> count_list (filter P xs) v = count_list xs v"
  by (induction xs) auto

lemma most_frequent_observed:
  assumes "\<exists>x\<in>set xs. x \<noteq> 0"
  shows "\<exists>s. most_frequent (filter (\<lambda>v. v \<noteq> 0) xs) = Some s \<and> s \<noteq> 0 \<and> s \<in> set xs
     \<and> (\<forall>v. v \<noteq> 0 \<longrightarrow> count_list xs v \<le> count_list xs s)"
proof -
  let ?a = "filter (\<lambda>v. v \<noteq> 0) xs"
  from assms have ne: "?a \<noteq> []" by (simp add: filter_empty_conv)
  let ?s = "fst (stats_mode ?a)"
  from stats_mode_most_frequent [OF ne]
  have mem: "?s \<in> set ?a" and cnt: "snd (stats_mode ?a) = count_list ?a ?s"
    and ub: "\<And>v. count_list ?a v \<le> count_list ?a ?s" by auto
  from mem have s: "?s \<noteq> 0" "?s \<in> set xs" by auto
  from mem have "0 < count_list ?a ?s" by (rule count_list_pos)
  with cnt ne have "most_frequent ?a = Some ?s"
    by (simp add: most_frequent_def Let_def)
  moreover have "count_list xs v \<le> count_list xs ?s" if "v \<noteq> 0" for v
    using ub [of v] that s(1) by (simp add: count_list_filter)
  ultimately show ?thesis using s by blast
qed

lemma select_columns_present:
  "set cs \<subseteq> fst ` set data \<Longrightarrow> select_columns data cs = Inr (map (\<lambda>c. the (map_of data c)) cs)"
proof (induction cs)
  case Nil
  then show ?case by simp
next
  case (Cons c cs)
  then obtain col where "map_of data c = Some col"
    by (metis domD dom_map_of_conv_image_fst list.set_intros(1) subsetD)
  with Cons show ?case by (simp add: get_column_def)
qed

lemma float_columns_map:
  "(\<And>c. c \<in> set cs \<Longrightarrow> float_column pyfloat (h c) = Inr (g c)) \<Longrightarrow>
   float_columns pyfloat (map h cs) = Inr (map g cs)"
  by (induction cs) simp_all

lemma impute_valid_Some:
  "impute_valid (map (\<lambda>c. Some (f c)) cs) (map g cs)
     = map (\<lambda>c. map (\<lambda>v. if v = 0 then f c else v) (g c)) cs"
  by (induction cs) simp_all

lemma map_of_set_columns:
  "map_of (set_columns out0 cs (map g cs)) c
     = (if c \<in> set cs then Some (Float64 (g c)) else map_of out0 c)"
proof (induction cs arbitrary: out0)
  case Nil
  then show ?case by simp
next
  case (Cons c' cs)
  show ?case
    by (simp add: Cons.IH set_column_def update_conv')
qed

text \<open>
  Claim C1, as amended. When every designated column converts to \<^verbatim>\<open>float64\<close> (a
  numeric column, or a column of strings that \<^verbatim>\<open>float\<close> accepts) and has, so
  converted, at least one entry other than the sentinel 0, fitting the imputer on a frame
  and transforming the same frame succeeds; the statistic fitted for a column is one of
  the most frequent non-sentinel values of the converted column; and in the output the
  column is the converted column with exactly the sentinel entries replaced by that
  statistic, so no sentinel is left.
\<close>

theorem ImputeCategorical_fit_transform_fills:
  assumes fitted: "fitted = (case cols of None \<Rightarrow> map fst data | Some cs \<Rightarrow> cs)"
    and nonempty: "fitted \<noteq> []"
    and observed: "\<forall>c\<in>set fitted. \<exists>col xs.
      map_of data c = Some col \<and> float_column pyfloat col = Inr xs \<and> (\<exists>x\<in>set xs. x \<noteq> 0)"
  shows "\<exists>imp statistics out.
      ImputeCategorical_fit pyfloat (ImputeCategorical_init cols) data target = Inr imp
    \<and> imputer imp = Some statistics \<and> length statistics = length fitted
    \<and> ImputeCategorical_transform pyfloat imp data = Inr out
    \<and> (\<forall>i<length fitted. \<exists>col xs s ys.
          map_of data (fitted ! i) = Some col \<and> float_column pyfloat col = Inr xs
        \<and> statistics ! i = Some s
        \<and> s \<noteq> 0 \<and> s \<in> set xs \<and> (\<forall>v. v \<noteq> 0 \<longrightarrow> count_list xs v \<le> count_list xs s)
        \<and> map_of out (fitted ! i) = Some (Float64 ys)
        \<and> ys = map (\<lambda>v. if v = 0 then s else v) xs \<and> 0 \<notin> set ys)"
proof -
  define h where "h c = the (map_of data c)" for c
  define g where "g c = floats pyfloat (h c)" for c
  define f where "f c = the (most_frequent (filter (\<lambda>v. v \<noteq> 0) (g c)))" for c
  have colobs: "map_of data c = Some (h c) \<and> float_column pyfloat (h c) = Inr (g c)
      \<and> (\<exists>x\<in>set (g c). x \<noteq> 0)"
    if "c \<in> set fitted" for c
  proof -
    from observed that obtain col xs where
      "map_of data c = Some col" "float_column pyfloat col = Inr xs" "\<exists>x\<in>set xs. x \<noteq> 0"
      by blast
    then show ?thesis by (simp add: g_def h_def floats_def)
  qed
  then have col: "map_of data c = Some (h c)" and conv: "float_column pyfloat (h c) = Inr (g c)"
    and obs: "\<exists>x\<in>set (g c). x \<noteq> 0"
    if "c \<in> set fitted" for c
    using that by blast+
  have stat: "most_frequent (filter (\<lambda>v. v \<noteq> 0) (g c)) = Some (f c) \<and> f c \<noteq> 0 \<and> f c \<in> set (g c)
      \<and> (\<forall>v. v \<noteq> 0 \<longrightarrow> count_list (g c) v \<le> count_list (g c) (f c))"
    if "c \<in> set fitted" for c
    using most_frequent_observed [OF obs [OF that]] by (auto simp: f_def)
  have present: "set fitted \<subseteq> fst ` set data"
  proof
    fix c assume "c \<in> set fitted"
    then have "map_of data c = Some (h c)" by (rule col)
    then have "(c, h c) \<in> set data" by (rule map_of_SomeD)
    then show "c \<in> fst ` set data" by force
  qed
  have "map (\<lambda>c. the (map_of data c)) fitted = map h fitted"
    by (simp add: h_def)
  with present have sel: "select_columns data fitted = Inr (map h fitted)"
    by (simp add: select_columns_present)
  have flt: "float_columns pyfloat (map h fitted) = Inr (map g fitted)"
    by (rule float_columns_map) (rule conv)
  have "g (hd fitted) \<noteq> []"
    using nonempty obs [of "hd fitted"] by (cases fitted) auto
  with nonempty flt have chk: "check_array pyfloat (map h fitted) = Inr (map g fitted)"
    by (cases fitted) (simp_all add: check_array_def)
  define statistics where "statistics = map (\<lambda>c. Some (f c)) fitted"
  have stats: "map (\<lambda>col. most_frequent (filter (\<lambda>v. v \<noteq> 0) col)) (map g fitted) = statistics"
    using stat by (simp add: statistics_def)
  define imp where
    "imp = (ImputeCategorical_init cols)\<lparr>imp_columns := Some fitted, imputer := Some statistics\<rparr>"
  define out where
    "out = set_columns data fitted (map (\<lambda>c. map (\<lambda>v. if v = 0 then f c else v) (g c)) fitted)"
  have fit: "ImputeCategorical_fit pyfloat (ImputeCategorical_init cols) data target = Inr imp"
    using sel chk stats fitted
    by (simp add: ImputeCategorical_fit_def ImputeCategorical_init_def Imputer_fit_def imp_def Let_def)
  have tr: "ImputeCategorical_transform pyfloat imp data = Inr out"
    using sel chk
    by (simp add: ImputeCategorical_transform_def imp_def Imputer_transform_def statistics_def
        impute_valid_Some assign_columns_def out_def)
  have each: "\<exists>col xs s ys.
          map_of data (fitted ! i) = Some col \<and> float_column pyfloat col = Inr xs
        \<and> statistics ! i = Some s
        \<and> s \<noteq> 0 \<and> s \<in> set xs \<and> (\<forall>v. v \<noteq> 0 \<longrightarrow> count_list xs v \<le> count_list xs s)
        \<and> map_of out (fitted ! i) = Some (Float64 ys)
        \<and> ys = map (\<lambda>v. if v = 0 then s else v) xs \<and> 0 \<notin> set ys" if "i < length fitted" for i
  proof -
    let ?c = "fitted ! i"
    from that have c: "?c \<in> set fitted" by simp
    have "map_of out ?c = Some (Float64 (map (\<lambda>v. if v = 0 then f ?c else v) (g ?c)))"
      using c unfolding out_def by (simp add: map_of_set_columns)
    moreover have "0 \<notin> set (map (\<lambda>v. if v = 0 then f ?c else v) (g ?c))"
      using stat [OF c] by auto
    moreover have "statistics ! i = Some (f ?c)"
      using that by (simp add: statistics_def)
    ultimately show ?thesis using col [OF c] conv [OF c] stat [OF c] by blast
  qed
  have "imputer imp = Some statistics" "length statistics = length fitted"
    by (simp_all add: imp_def statistics_def)
  with fit tr each show ?thesis by blast
qed

theorem ImputeCategorical_fit_transform_fills_witness:
  "(\<exists>imp statistics out.
      ImputeCategorical_fit census_float (ImputeCategorical_init (Some [''workclass'']))
        [(''workclass'', Int64 [3, 1, 1, 2, 0])] None = Inr imp
    \<and> imputer imp = Some statistics \<and> length statistics = length [''workclass'']
    \<and> ImputeCategorical_transform census_float imp [(''workclass'', Int64 [3, 1, 1, 2, 0])]
        = Inr out
    \<and> (\<forall>i<length [''workclass'']. \<exists>col xs s ys.
          map_of [(''workclass'', Int64 [3, 1, 1, 2, 0])] ([''workclass''] ! i) = Some col
        \<and> float_column census_float col = Inr xs
        \<and> statistics ! i = Some s
        \<and> s \<noteq> 0 \<and> s \<in> set xs \<and> (\<forall>v. v \<noteq> 0 \<longrightarrow> count_list xs v \<le> count_list xs s)
        \<and> map_of out ([''workclass''] ! i) = Some (Float64 ys)
        \<and> ys = map (\<lambda>v. if v = 0 then s else v) xs \<and> 0 \<notin> set ys))
   \<and> fit_transform census_float (Imputer (ImputeCategorical_init (Some [''workclass''])))
        [(''workclass'', Int64 [3, 1, 1, 2, 0])] None
      = Inr (Imputer \<lparr>imp_columns = Some [''workclass''], imputer = Some [Some 1]\<rparr>,
             [(''workclass'', Float64 [3, 1, 1, 2, 1])])
   \<and> fit_transform census_float (Imputer (ImputeCategorical_init (Some [''fnlwgt''])))
        [(''fnlwgt'', Int64 [9007199254740993, 0])] None
      = Inr (Imputer \<lparr>imp_columns = Some [''fnlwgt''],
                      imputer = Some [Some 9007199254740992]\<rparr>,
             [(''fnlwgt'', Float64 [9007199254740992, 9007199254740992])])
   \<and> fit_transform census_float (Imputer (ImputeCategorical_init (Some [''age''])))
        [(''age'', Object ['' 39'', '' 0'', '' 50'', '' 39''])] None
      = Inr (Imputer \<lparr>imp_columns = Some [''age''], imputer = Some [Some 39]\<rparr>,
             [(''age'', Float64 [39, 39, 50, 39])])"
proof (intro conjI)
  show "\<exists>imp statistics out.
      ImputeCategorical_fit census_float (ImputeCategorical_init (Some [''workclass'']))
        [(''workclass'', Int64 [3, 1, 1, 2, 0])] None = Inr imp
    \<and> imputer imp = Some statistics \<and> length statistics = length [''workclass'']
    \<and> ImputeCategorical_transform census_float imp [(''workclass'', Int64 [3, 1, 1, 2, 0])]
        = Inr out
    \<and> (\<forall>i<length [''workclass'']. \<exists>col xs s ys.
          map_of [(''workclass'', Int64 [3, 1, 1, 2, 0])] ([''workclass''] ! i) = Some col
        \<and> float_column census_float col = Inr xs
        \<and> statistics ! i = Some s
        \<and> s \<noteq> 0 \<and> s \<in> set xs \<and> (\<forall>v. v \<noteq> 0 \<longrightarrow> count_list xs v \<le> count_list xs s)
        \<and> map_of out ([''workclass''] ! i) = Some (Float64 ys)
        \<and> ys = map (\<lambda>v. if v = 0 then s else v) xs \<and> 0 \<notin> set ys)"
    by (rule ImputeCategorical_fit_transform_fills)
       (simp_all add: float64_of_int_def round53_def)
  show "fit_transform census_float (Imputer (ImputeCategorical_init (Some [''workclass''])))
        [(''workclass'', Int64 [3, 1, 1, 2, 0])] None
      = Inr (Imputer \<lparr>imp_columns = Some [''workclass''], imputer = Some [Some 1]\<rparr>,
             [(''workclass'', Float64 [3, 1, 1, 2, 1])])"
    by code_simp
  show "fit_transform census_float (Imputer (ImputeCategorical_init (Some [''fnlwgt''])))
        [(''fnlwgt'', Int64 [9007199254740993, 0])] None
      = Inr (Imputer \<lparr>imp_columns = Some [''fnlwgt''],
                      imputer = Some [Some 9007199254740992]\<rparr>,
             [(''fnlwgt'', Float64 [9007199254740992, 9007199254740992])])"
  proof -
    have rounded: "float64_of_int 9007199254740993 = 9007199254740992"
      by (simp add: float64_of_int_def round53_def Let_def)
    show ?thesis
      by (simp add: rounded ImputeCategorical_init_def ImputeCategorical_fit_def
          ImputeCategorical_transform_def get_column_def Imputer_fit_def Imputer_transform_def
          check_array_def most_frequent_def stats_mode_def mode_step_def np_unique_def
          assign_columns_def set_column_def float64_of_int_def [of 0] round53_def [of 0])
  qed
  show "fit_transform census_float (Imputer (ImputeCategorical_init (Some [''age''])))
        [(''age'', Object ['' 39'', '' 0'', '' 50'', '' 39''])] None
      = Inr (Imputer \<lparr>imp_columns = Some [''age''], imputer = Some [Some 39]\<rparr>,
             [(''age'', Float64 [39, 39, 50, 39])])"
    by code_simp
qed

text \<open>
  Claim C1 as it was stated fails on a designated column that holds nothing but the
  sentinel: the fit finds no value to put in, the library's \<^verbatim>\<open>transform\<close> drops the
  column, and the assignment of the narrower array raises.
\<close>

theorem ImputeCategorical_all_missing_counterexample:
  "fit_transform census_float (Imputer (ImputeCategorical_init (Some [''workclass''])))
     [(''workclass'', Int64 [0, 0])] None = Inl ValueError"
  by (simp add: ImputeCategorical_init_def ImputeCategorical_fit_def
      ImputeCategorical_transform_def get_column_def Imputer_fit_def Imputer_transform_def
      check_array_def most_frequent_def assign_columns_def float64_of_int_def round53_def)

section \<open>The metadata\<close>

lemma pd_unique_props: "distinct (pd_unique xs)" "set (pd_unique xs) = set xs"
  by (simp_all add: pd_unique_def)

lemma object_domains_absent:
  "c \<notin> fst ` set data \<Longrightarrow> map_of (object_domains data) c = None"
  by (induction data rule: object_domains.induct) auto

lemma map_of_object_domains:
  "distinct (map fst data) \<Longrightarrow>
   map_of (object_domains data) c =
     (case map_of data c of
        None \<Rightarrow> None
      | Some (Object xs) \<Rightarrow> Some (pd_unique xs)
      | Some (Int64 xs) \<Rightarrow> None
      | Some (Float64 xs) \<Rightarrow> None)"
proof (induction data rule: object_domains.induct)
  case 1
  then show ?case by simp
next
  case (2 c' xs data)
  then show ?case by simp
next
  case (3 c' xs data)
  then show ?case by (auto simp: object_domains_absent)
next
  case (4 c' xs data)
  then show ?case by (auto simp: object_domains_absent)
qed

lemma names_distinct: "distinct names"
  by (simp add: names_def)

lemma names_income: "last names = ''income''" "''income'' \<notin> set (butlast names)"
  by (simp_all add: names_def)

text \<open>
  Claim C3, as amended. For a training frame read with the fifteen \<^verbatim>\<open>names\<close>, the
  metadata is built, and its feature names are all fifteen names in order, the target
  \<^verbatim>\<open>income\<close> included as the last one (the names in front of it are the features
  proper); its target names are the distinct values of the income column; and its
  categorical features map every column of strings to the list of its distinct values
  and have no entry for a numeric column.
\<close>

theorem make_meta_contents:
  assumes "map fst data = names"
  shows "\<exists>income m.
      map_of data ''income'' = Some income \<and> make_meta data = Inr m
    \<and> feature_names m = names \<and> last (feature_names m) = ''income''
    \<and> ''income'' \<notin> set (butlast (feature_names m))
    \<and> target_names m = column_unique income
    \<and> (\<forall>xs. income = Object xs \<longrightarrow>
          (\<exists>ts. target_names m = Object ts \<and> distinct ts \<and> set ts = set xs))
    \<and> (\<forall>c xs. map_of data c = Some (Object xs) \<longrightarrow>
          (\<exists>d. map_of (categorical_features m) c = Some d \<and> distinct d \<and> set d = set xs))
    \<and> (\<forall>c xs. map_of data c = Some (Int64 xs) \<longrightarrow> map_of (categorical_features m) c = None)
    \<and> (\<forall>c xs. map_of data c = Some (Float64 xs) \<longrightarrow> map_of (categorical_features m) c = None)"
proof -
  have "''income'' \<in> set names"
    by (simp add: names_def)
  then have "''income'' \<in> fst ` set data"
    using assms by (metis image_set)
  then obtain income where income: "map_of data ''income'' = Some income"
    by (metis domD dom_map_of_conv_image_fst)
  have dist: "distinct (map fst data)"
    using assms names_distinct by simp
  define m where "m = \<lparr>target_names = column_unique income, feature_names = map fst data,
    categorical_features = object_domains data\<rparr>"
  have mk: "make_meta data = Inr m"
    using income by (simp add: make_meta_def m_def)
  have fn: "feature_names m = names"
    using assms by (simp add: m_def)
  have tn: "target_names m = column_unique income"
    by (simp add: m_def)
  have tgt: "\<exists>ts. target_names m = Object ts \<and> distinct ts \<and> set ts = set xs"
    if "income = Object xs" for xs
    using that by (simp add: m_def pd_unique_props)
  have cat: "\<exists>d. map_of (categorical_features m) c = Some d \<and> distinct d \<and> set d = set xs"
    if "map_of data c = Some (Object xs)" for c xs
    using that by (simp add: m_def map_of_object_domains [OF dist] pd_unique_props)
  have num: "map_of (categorical_features m) c = None"
    if "map_of data c = Some (Int64 xs)" for c xs
    using that by (simp add: m_def map_of_object_domains [OF dist])
  have flt: "map_of (categorical_features m) c = None"
    if "map_of data c = Some (Float64 xs)" for c xs
    using that by (simp add: m_def map_of_object_domains [OF dist])
  from income mk fn tn tgt cat num flt names_income show ?thesis
    by (intro exI [of _ income] exI [of _ m] conjI allI impI) simp_all
qed

theorem make_meta_contents_witness:
  "\<exists>income m.
      map_of census_sample ''income'' = Some income \<and> make_meta census_sample = Inr m
    \<and> feature_names m = names \<and> last (feature_names m) = ''income''
    \<and> ''income'' \<notin> set (butlast (feature_names m))
    \<and> target_names m = column_unique income
    \<and> (\<forall>xs. income = Object xs \<longrightarrow>
          (\<exists>ts. target_names m = Object ts \<and> distinct ts \<and> set ts = set xs))
    \<and> (\<forall>c xs. map_of census_sample c = Some (Object xs) \<longrightarrow>
          (\<exists>d. map_of (categorical_features m) c = Some d \<and> distinct d \<and> set d = set xs))
    \<and> (\<forall>c xs. map_of census_sample c = Some (Int64 xs) \<longrightarrow> map_of (categorical_features m) c = None)
    \<and> (\<forall>c xs. map_of census_sample c = Some (Float64 xs) \<longrightarrow> map_of (categorical_features m) c = None)"
  by (rule make_meta_contents) (simp add: census_sample_def names_def)

text \<open>
  Claim C3 as it was stated fails: the feature names of the metadata contain the target
  column.
\<close>

theorem make_meta_feature_names_counterexample:
  "(case make_meta census_sample of
      Inl e \<Rightarrow> False
    | Inr m \<Rightarrow> ''income'' \<in> set (feature_names m))"
  by (simp add: make_meta_def census_sample_def)

section \<open>The pipeline\<close>

lemma fit_transform_ignores_target: "fit_transform pyfloat t X y = fit_transform pyfloat t X y'"
  by (cases t) (simp_all add: EncodeCategorical_fit_def ImputeCategorical_fit_def)

lemma fit_steps_ignores_target: "fit_steps pyfloat steps X y = fit_steps pyfloat steps X y'"
proof (induction steps arbitrary: X)
  case Nil
  show ?case by simp
next
  case (Cons step steps)
  obtain name t where step: "step = (name, t)" by (cases step)
  have "fit_transform pyfloat t X (Some y) = fit_transform pyfloat t X (Some y')"
    by (rule fit_transform_ignores_target)
  with Cons.IH step show ?case by (simp split: sum.splits prod.splits)
qed

text \<open>
  Claim C5. Fitting the pipeline of the script fits the encoder on \<open>X\<close> and transforms
  \<open>X\<close> with it, fits the imputer on that output and transforms it, and fits the
  classifier on the result and \<open>y\<close>. The labels reach the \<^verbatim>\<open>fit\<close> of the two
  transformers as \<^verbatim>\<open>target\<close> and are ignored there: what the steps in front of
  the classifier compute is the same for any labels. Prediction transforms with the
  fitted encoder, then with the fitted imputer, and the classifier predicts from that.
\<close>

theorem census_pipeline_stages:
  "Pipeline_fit pyfloat clf_fit (census keys) X y =
     (case EncodeCategorical_fit (EncodeCategorical_init (Some keys)) X (Some y) of
        Inl e \<Rightarrow> Inl e
      | Inr enc \<Rightarrow>
     (case EncodeCategorical_transform enc X of
        Inl e \<Rightarrow> Inl e
      | Inr X1 \<Rightarrow>
     (case ImputeCategorical_fit pyfloat (ImputeCategorical_init
             (Some [''workclass'', ''native-country'', ''occupation''])) X1 (Some y) of
        Inl e \<Rightarrow> Inl e
      | Inr imp \<Rightarrow>
     (case ImputeCategorical_transform pyfloat imp X1 of
        Inl e \<Rightarrow> Inl e
      | Inr X2 \<Rightarrow>
     (case clf_fit X2 y of
        Inl e \<Rightarrow> Inl e
      | Inr m \<Rightarrow> Inr ([(''encoder'', Encoder enc), (''imputer'', Imputer imp)], m))))))
   \<and> fit_steps pyfloat steps X y = fit_steps pyfloat steps X y'
   \<and> EncodeCategorical_fit enc0 X (Some y) = EncodeCategorical_fit enc0 X None
   \<and> ImputeCategorical_fit pyfloat imp0 X (Some y) = ImputeCategorical_fit pyfloat imp0 X None
   \<and> Pipeline_predict pyfloat clf_predict ([(''encoder'', Encoder enc), (''imputer'', Imputer imp)], m) X =
     (case EncodeCategorical_transform enc X of
        Inl e \<Rightarrow> Inl e
      | Inr X1 \<Rightarrow>
     (case ImputeCategorical_transform pyfloat imp X1 of
        Inl e \<Rightarrow> Inl e
      | Inr X2 \<Rightarrow> clf_predict m X2))"
proof (intro conjI)
  show "fit_steps pyfloat steps X y = fit_steps pyfloat steps X y'"
    by (rule fit_steps_ignores_target)
  show "EncodeCategorical_fit enc0 X (Some y) = EncodeCategorical_fit enc0 X None"
    by (simp add: EncodeCategorical_fit_def)
  show "ImputeCategorical_fit pyfloat imp0 X (Some y) = ImputeCategorical_fit pyfloat imp0 X None"
    by (simp add: ImputeCategorical_fit_def)
qed (simp_all add: Pipeline_fit_def Pipeline_predict_def census_def split: sum.splits)

theorem census_pipeline_stages_witness:
  "Pipeline_fit census_float stub_fit (census census_keys) adult_data [0, 0, 0, 1, 1]
     = Inr ([(''encoder'',
          Encoder
           \<lparr>enc_columns = Some [''workclass'', ''occupation'', ''native-country''],
            encoders =
              Some
               [(''workclass'',
                 Object ['' ?'', '' Private'', '' Self-emp-not-inc'', '' State-gov'']),
                (''occupation'',
                 Object ['' ?'', '' Adm-clerical'', '' Exec-managerial'',
                         '' Handlers-cleaners'']),
                (''native-country'', Object ['' ?'', '' South'', '' United-States''])]\<rparr>),
         (''imputer'',
          Imputer
           \<lparr>imp_columns = Some [''workclass'', ''native-country'', ''occupation''],
            imputer = Some [Some 1, Some 2, Some 2]\<rparr>)], 0)
   \<and> Pipeline_predict census_float stub_predict ([(''encoder'',
          Encoder
           \<lparr>enc_columns = Some [''workclass'', ''occupation'', ''native-country''],
            encoders =
              Some
               [(''workclass'',
                 Object ['' ?'', '' Private'', '' Self-emp-not-inc'', '' State-gov'']),
                (''occupation'',
                 Object ['' ?'', '' Adm-clerical'', '' Exec-managerial'',
                         '' Handlers-cleaners'']),
                (''native-country'', Object ['' ?'', '' South'', '' United-States''])]\<rparr>),
         (''imputer'',
          Imputer
           \<lparr>imp_columns = Some [''workclass'', ''native-country'', ''occupation''],
            imputer = Some [Some 1, Some 2, Some 2]\<rparr>)], 0) adult_data = Inr [0, 0, 0, 0, 0]"
  using census_pipeline_stages
    [where pyfloat = census_float and clf_fit = stub_fit and keys = census_keys and X = adult_data
       and y = "[0, 0, 0, 1, 1]" and clf_predict = stub_predict and m = 0
       and enc = "\<lparr>enc_columns = Some [''workclass'', ''occupation'', ''native-country''],
            encoders =
              Some
               [(''workclass'',
                 Object ['' ?'', '' Private'', '' Self-emp-not-inc'', '' State-gov'']),
                (''occupation'',
                 Object ['' ?'', '' Adm-clerical'', '' Exec-managerial'',
                         '' Handlers-cleaners'']),
                (''native-country'', Object ['' ?'', '' South'', '' United-States''])]\<rparr>"
       and imp = "\<lparr>imp_columns = Some [''workclass'', ''native-country'', ''occupation''],
            imputer = Some [Some 1, Some 2, Some 2]\<rparr>"]
  by (simp add: census_keys_def adult_data_def stub_fit_def stub_predict_def
      EncodeCategorical_init_def EncodeCategorical_fit_def EncodeCategorical_transform_def
      ImputeCategorical_init_def ImputeCategorical_fit_def ImputeCategorical_transform_def
      get_column_def set_column_def encode_labels_def np_unique_def searchsorted_def
      Imputer_fit_def Imputer_transform_def check_array_def most_frequent_def stats_mode_def
      mode_step_def assign_columns_def float64_of_int_def round53_def)

section \<open>The test targets\<close>

lemma rstrip_period: "y = [] \<or> last y \<noteq> CHR ''.'' \<Longrightarrow> rstrip ''.'' (y @ ''.'') = y"
  by (cases "rev y") (auto simp: rstrip_def last_rev [symmetric] simp del: last_rev)

lemma encode_labels_known:
  "set y \<subseteq> set classes \<Longrightarrow>
   encode_labels classes y = Inr (Int64 (map (\<lambda>v. int (searchsorted classes v)) y))"
  by (auto simp: encode_labels_def list_all_iff)

text \<open>
  Claim C6. For test targets that are training targets followed by a period (the
  training target itself not ending in one), stripping and encoding with the encoder
  fitted on the training targets succeeds and gives the very codes of the training
  targets.
\<close>

theorem y_true_strips_trailing_period:
  assumes "\<forall>y\<in>set ys. y \<in> set target \<and> (y = [] \<or> last y \<noteq> CHR ''.'')"
  shows "\<exists>codes.
      y_true (yencode target) (map (\<lambda>y. y @ ''.'') ys) = Inr (Int64 codes)
    \<and> LabelEncoder_transform (yencode target) (Object ys) = Inr (Int64 codes)
    \<and> length codes = length ys"
proof -
  have "map (rstrip ''.'') (map (\<lambda>y. y @ ''.'') ys) = ys"
    using assms by (simp add: rstrip_period map_idI)
  moreover have "set ys \<subseteq> set (np_unique target)"
    using assms by (auto simp: np_unique_props)
  ultimately show ?thesis
    by (simp add: y_true_def yencode_def encode_labels_known)
qed

theorem y_true_strips_trailing_period_witness:
  "(\<exists>codes.
      y_true (yencode adult_target) (map (\<lambda>y. y @ ''.'') ['' >50K'', '' <=50K'']) = Inr (Int64 codes)
    \<and> LabelEncoder_transform (yencode adult_target) (Object ['' >50K'', '' <=50K'']) = Inr (Int64 codes)
    \<and> length codes = length ['' >50K'', '' <=50K''])
   \<and> y_true (yencode adult_target) ['' >50K.'', '' <=50K.''] = Inr (Int64 [1, 0])"
proof
  show "\<exists>codes.
      y_true (yencode adult_target) (map (\<lambda>y. y @ ''.'') ['' >50K'', '' <=50K'']) = Inr (Int64 codes)
    \<and> LabelEncoder_transform (yencode adult_target) (Object ['' >50K'', '' <=50K'']) = Inr (Int64 codes)
    \<and> length codes = length ['' >50K'', '' <=50K'']"
    by (rule y_true_strips_trailing_period) (simp add: adult_target_def)
  show "y_true (yencode adult_target) ['' >50K.'', '' <=50K.''] = Inr (Int64 [1, 0])"
    by (simp add: y_true_def yencode_def adult_target_def rstrip_def encode_labels_def
        np_unique_def searchsorted_def)
qed

section \<open>What the encoder's transform touches\<close>

lemma LabelEncoder_transform_Inr:
  "LabelEncoder_transform e col = Inr codes \<Longrightarrow> \<exists>cs. codes = Int64 cs \<and> length cs = column_len col"
  by (cases e; cases col) (auto simp: encode_labels_def split: if_splits)

lemma LabelEncoder_transform_Inl:
  "LabelEncoder_transform e col = Inl err \<Longrightarrow> err = ValueError"
  by (cases e; cases col) (auto simp: encode_labels_def split: if_splits)

lemma encode_items_names:
  "encode_items data items out0 = Inr out \<Longrightarrow> map fst out0 = map fst data \<Longrightarrow>
   map fst out = map fst data"
proof (induction items arbitrary: out0)
  case Nil
  then show ?case by simp
next
  case (Cons item items)
  obtain c e where item: "item = (c, e)" by (cases item)
  from Cons.prems(1) item obtain col codes where
    col: "map_of data c = Some col"
    and step: "encode_items data items (set_column out0 c codes) = Inr out"
    by (auto split: sum.splits)
  from col have "c \<in> fst ` set data"
    by (metis domI dom_map_of_conv_image_fst)
  with Cons.prems(2) have "c \<in> fst ` set out0"
    by (metis image_set)
  then have "map fst (set_column out0 c codes) = map fst data"
    using Cons.prems(2) by (simp add: names_set_column)
  with Cons.IH [OF step] show ?case .
qed

lemma encode_items_codes:
  "encode_items data items out0 = Inr out \<Longrightarrow> c \<in> fst ` set items \<Longrightarrow>
   \<exists>codes. map_of out c = Some (Int64 codes)"
proof (induction items arbitrary: out0)
  case Nil
  then show ?case by simp
next
  case (Cons item items)
  obtain c' e where item: "item = (c', e)" by (cases item)
  from Cons.prems(1) item obtain col codes where
    codes: "LabelEncoder_transform e col = Inr codes"
    and step: "encode_items data items (set_column out0 c' codes) = Inr out"
    by (auto split: sum.splits)
  show ?case
  proof (cases "c \<in> fst ` set items")
    case True
    with Cons.IH [OF step] show ?thesis .
  next
    case False
    with Cons.prems(2) item have "c = c'" by auto
    with encode_items_frame [OF step False] LabelEncoder_transform_Inr [OF codes]
    show ?thesis by (auto simp: map_of_set_column)
  qed
qed

lemma encode_items_st_pure:
  "data < length s \<Longrightarrow> out0 < length s \<Longrightarrow> data \<noteq> out0 \<Longrightarrow>
   \<exists>t. snd (encode_items_st items data out0 s) = s[out0 := t]
     \<and> fst (encode_items_st items data out0 s)
         = map_sum id (\<lambda>_. out0) (encode_items (s ! data) items (s ! out0))
     \<and> (\<forall>out. encode_items (s ! data) items (s ! out0) = Inr out \<longrightarrow> t = out)"
proof (induction items arbitrary: s)
  case Nil
  then show ?case by (intro exI [of _ "s ! out0"]) simp
next
  case (Cons item items)
  obtain c e where item: "item = (c, e)" by (cases item)
  show ?case
  proof (cases "get_column (s ! data) c")
    case (Inl err)
    then have "encode_items_st (item # items) data out0 s = (Inl err, s)"
      "encode_items (s ! data) (item # items) (s ! out0) = Inl err"
      unfolding item by (simp_all del: get_column_Inr)
    then show ?thesis by (intro exI [of _ "s ! out0"]) simp
  next
    case col: (Inr col)
    show ?thesis
    proof (cases "LabelEncoder_transform e col")
      case (Inl err)
      with col have "encode_items_st (item # items) data out0 s = (Inl err, s)"
        "encode_items (s ! data) (item # items) (s ! out0) = Inl err"
        unfolding item by (simp_all del: get_column_Inr)
      then show ?thesis by (intro exI [of _ "s ! out0"]) simp
    next
      case codes: (Inr codes)
      define s1 where "s1 = df_setitem s out0 c codes"
      from Cons.prems have len: "data < length s1" "out0 < length s1"
        and rd: "s1 ! data = s ! data" and wr: "s1 ! out0 = set_column (s ! out0) c codes"
        by (simp_all add: df_setitem_def s1_def)
      from col codes have step: "encode_items_st (item # items) data out0 s
          = encode_items_st items data out0 s1"
        and pure: "encode_items (s ! data) (item # items) (s ! out0)
          = encode_items (s ! data) items (set_column (s ! out0) c codes)"
        unfolding item s1_def by (simp_all del: get_column_Inr)
      from Cons.IH [OF len Cons.prems(3)] obtain t where
        t1: "snd (encode_items_st items data out0 s1) = s1[out0 := t]"
        and t2: "fst (encode_items_st items data out0 s1)
             = map_sum id (\<lambda>_. out0) (encode_items (s1 ! data) items (s1 ! out0))"
        and t3: "\<forall>out. encode_items (s1 ! data) items (s1 ! out0) = Inr out \<longrightarrow> t = out"
        by blast
      have over: "s1[out0 := t] = s[out0 := t]"
        by (simp add: df_setitem_def s1_def)
      show ?thesis
      proof (intro exI [of _ t] conjI)
        show "snd (encode_items_st (item # items) data out0 s) = s[out0 := t]"
          unfolding step using t1 over by simp
        show "fst (encode_items_st (item # items) data out0 s)
           = map_sum id (\<lambda>_. out0) (encode_items (s ! data) (item # items) (s ! out0))"
          unfolding step pure using t2 by (simp only: rd wr)
        show "\<forall>out. encode_items (s ! data) (item # items) (s ! out0) = Inr out \<longrightarrow> t = out"
          unfolding pure using t3 by (simp only: rd wr)
      qed
    qed
  qed
qed

text \<open>
  Claim C7. Whatever the outcome, \<^verbatim>\<open>transform\<close> leaves every frame of the store as
  it was, the argument included, and adds one new frame. When it returns, it returns
  the address of that new frame, which has the columns of the argument in the same
  order; a column that is not a fitted one is the argument's column, and a fitted one
  holds integer codes.
\<close>

theorem EncodeCategorical_transform_copies:
  assumes "data < length s"
  shows "\<exists>t.
      snd (EncodeCategorical_transform_st self data s) = s @ [t]
    \<and> (s @ [t]) ! data = s ! data
    \<and> fst (EncodeCategorical_transform_st self data s)
        = map_sum id (\<lambda>_. length s) (EncodeCategorical_transform self (s ! data))
    \<and> (\<forall>out. EncodeCategorical_transform self (s ! data) = Inr out \<longrightarrow>
          t = out \<and> map fst out = map fst (s ! data)
        \<and> (\<forall>c. c \<notin> set (fitted_columns self) \<longrightarrow> map_of out c = map_of (s ! data) c)
        \<and> (\<forall>c\<in>set (fitted_columns self). \<exists>codes. map_of out c = Some (Int64 codes)))"
proof (cases "encoders self")
  case None
  with assms show ?thesis
    by (intro exI [of _ "s ! data"])
       (simp add: EncodeCategorical_transform_st_def EncodeCategorical_transform_def df_copy_def
          nth_append)
next
  case (Some encs)
  let ?s = "s @ [s ! data]"
  from assms have "data < length ?s" "length s < length ?s" "data \<noteq> length s" by simp_all
  from encode_items_st_pure [OF this, of encs] assms obtain t where
    t: "snd (encode_items_st encs data (length s) ?s) = s @ [t]"
      "fst (encode_items_st encs data (length s) ?s)
         = map_sum id (\<lambda>_. length s) (encode_items (s ! data) encs (s ! data))"
      "\<forall>out. encode_items (s ! data) encs (s ! data) = Inr out \<longrightarrow> t = out"
    by (auto simp: nth_append)
  have "map fst out = map fst (s ! data)
        \<and> (\<forall>c. c \<notin> set (fitted_columns self) \<longrightarrow> map_of out c = map_of (s ! data) c)
        \<and> (\<forall>c\<in>set (fitted_columns self). \<exists>codes. map_of out c = Some (Int64 codes))"
    if "encode_items (s ! data) encs (s ! data) = Inr out" for out
    using encode_items_names [OF that] encode_items_frame [OF that] encode_items_codes [OF that] Some
    by (simp add: fitted_columns_def)
  with t Some assms show ?thesis
    by (intro exI [of _ t])
       (simp add: EncodeCategorical_transform_st_def EncodeCategorical_transform_def df_copy_def
          nth_append)
qed

theorem EncodeCategorical_transform_copies_witness:
  "(\<exists>t.
      snd (EncodeCategorical_transform_st workclass_encoder 0 [adult_data]) = [adult_data] @ [t]
    \<and> ([adult_data] @ [t]) ! 0 = [adult_data] ! 0
    \<and> fst (EncodeCategorical_transform_st workclass_encoder 0 [adult_data])
        = map_sum id (\<lambda>_. length [adult_data]) (EncodeCategorical_transform workclass_encoder ([adult_data] ! 0))
    \<and> (\<forall>out. EncodeCategorical_transform workclass_encoder ([adult_data] ! 0) = Inr out \<longrightarrow>
          t = out \<and> map fst out = map fst ([adult_data] ! 0)
        \<and> (\<forall>c. c \<notin> set (fitted_columns workclass_encoder) \<longrightarrow> map_of out c = map_of ([adult_data] ! 0) c)
        \<and> (\<forall>c\<in>set (fitted_columns workclass_encoder). \<exists>codes. map_of out c = Some (Int64 codes))))
   \<and> EncodeCategorical_transform_st workclass_encoder 0 [adult_data]
     = (Inr 1,
        [adult_data,
         [(''age'', Int64 [39, 50, 38, 52, 54]),
          (''workclass'', Int64 [3, 1, 1, 2, 0]),
          (''occupation'',
             Object ['' Adm-clerical'', '' Exec-managerial'', '' Handlers-cleaners'',
                     '' Exec-managerial'', '' ?'']),
          (''native-country'',
             Object ['' United-States'', '' United-States'', '' United-States'', '' ?'',
                     '' South''])]])"
proof
  show "\<exists>t.
      snd (EncodeCategorical_transform_st workclass_encoder 0 [adult_data]) = [adult_data] @ [t]
    \<and> ([adult_data] @ [t]) ! 0 = [adult_data] ! 0
    \<and> fst (EncodeCategorical_transform_st workclass_encoder 0 [adult_data])
        = map_sum id (\<lambda>_. length [adult_data]) (EncodeCategorical_transform workclass_encoder ([adult_data] ! 0))
    \<and> (\<forall>out. EncodeCategorical_transform workclass_encoder ([adult_data] ! 0) = Inr out \<longrightarrow>
          t = out \<and> map fst out = map fst ([adult_data] ! 0)
        \<and> (\<forall>c. c \<notin> set (fitted_columns workclass_encoder) \<longrightarrow> map_of out c = map_of ([adult_data] ! 0) c)
        \<and> (\<forall>c\<in>set (fitted_columns workclass_encoder). \<exists>codes. map_of out c = Some (Int64 codes)))"
    by (rule EncodeCategorical_transform_copies) simp
  show "EncodeCategorical_transform_st workclass_encoder 0 [adult_data]
     = (Inr 1,
        [adult_data,
         [(''age'', Int64 [39, 50, 38, 52, 54]),
          (''workclass'', Int64 [3, 1, 1, 2, 0]),
          (''occupation'',
             Object ['' Adm-clerical'', '' Exec-managerial'', '' Handlers-cleaners'',
                     '' Exec-managerial'', '' ?'']),
          (''native-country'',
             Object ['' United-States'', '' United-States'', '' United-States'', '' ?'',
                     '' South''])]])"
    by (simp add: EncodeCategorical_transform_st_def workclass_encoder_def df_copy_def
        df_setitem_def adult_data_def get_column_def set_column_def encode_labels_def
        searchsorted_def)
qed

lemma encode_items_ValueError:
  "fst ` set items \<subseteq> fst ` set data \<Longrightarrow> (c, e) \<in> set items \<Longrightarrow> map_of data c = Some col \<Longrightarrow>
   LabelEncoder_transform e col = Inl ValueError \<Longrightarrow>
   encode_items data items out0 = Inl ValueError"
proof (induction items arbitrary: out0)
  case Nil
  then show ?case by simp
next
  case (Cons item items)
  obtain c' e' where item: "item = (c', e')" by (cases item)
  with Cons.prems(1) have "c' \<in> fst ` set data" by simp
  then obtain col' where col': "map_of data c' = Some col'"
    by (metis domD dom_map_of_conv_image_fst)
  show ?case
  proof (cases "LabelEncoder_transform e' col'")
    case (Inl err)
    with LabelEncoder_transform_Inl [OF Inl] item col' show ?thesis
      by (simp add: get_column_def)
  next
    case (Inr codes)
    have "(c, e) \<noteq> (c', e')"
    proof
      assume "(c, e) = (c', e')"
      with Cons.prems(3,4) col' Inr show False by simp
    qed
    with Cons.prems(2) item have mem: "(c, e) \<in> set items" by auto
    from Cons.prems(1) item have sub: "fst ` set items \<subseteq> fst ` set data" by simp
    have "encode_items data items (set_column out0 c' codes) = Inl ValueError"
      by (rule Cons.IH [OF sub mem Cons.prems(3,4)])
    with Inr item col' show ?thesis by (simp add: get_column_def)
  qed
qed

text \<open>
  Claim C8. An encoder fitted on a frame in which some fitted column holds at least one
  category string transforms that frame, and applied again to its own output it raises
  \<^verbatim>\<open>ValueError\<close>: the codes are no labels it knows.
\<close>

theorem EncodeCategorical_transform_twice_fails:
  assumes fitted: "fitted = (case cols of None \<Rightarrow> map fst data | Some cs \<Rightarrow> cs)"
    and present: "set fitted \<subseteq> fst ` set data"
    and c: "c \<in> set fitted" "map_of data c = Some (Object xs)" "xs \<noteq> []"
  shows "\<exists>enc out.
      EncodeCategorical_fit (EncodeCategorical_init cols) data target = Inr enc
    \<and> EncodeCategorical_transform enc data = Inr out
    \<and> EncodeCategorical_transform enc out = Inl ValueError"
proof -
  define items where "items = map (\<lambda>c. (c, LabelEncoder_fit (the (map_of data c)))) (remdups fitted)"
  define enc where "enc = (EncodeCategorical_init cols)\<lparr>enc_columns := Some fitted, encoders := Some items\<rparr>"
  have fit: "EncodeCategorical_fit (EncodeCategorical_init cols) data target = Inr enc"
    using fit_encoders_present [of "remdups fitted" data] present fitted
    by (simp add: EncodeCategorical_fit_def EncodeCategorical_init_def enc_def items_def Let_def)
  have "\<exists>col codes. map_of data c' = Some col \<and> LabelEncoder_transform e col = Inr codes"
    if "(c', e) \<in> set items" for c' e
  proof -
    from that have c': "c' \<in> set fitted" and e: "e = LabelEncoder_fit (the (map_of data c'))"
      by (auto simp: items_def)
    from c' present obtain col where col: "map_of data c' = Some col"
      by (metis domD dom_map_of_conv_image_fst subsetD)
    with e LabelEncoder_fit_transform [of col] show ?thesis by auto
  qed
  then obtain out where out: "encode_items data items data = Inr out"
    using encode_items_succeeds [of items data data] by blast
  have dist: "distinct (map fst items)"
    by (simp add: items_def comp_def)
  have mem: "(c, Object (np_unique xs)) \<in> set items"
    using c by (simp add: items_def image_iff)
  from encode_items_hit [OF out dist mem] c(2) obtain codes where
    codes: "LabelEncoder_transform (Object (np_unique xs)) (Object xs) = Inr codes"
      "map_of out c = Some codes"
    by auto
  from LabelEncoder_transform_Inr [OF codes(1)] obtain cs where
    cs: "codes = Int64 cs" and len: "length cs = column_len (Object xs)" by blast
  from len c(3) have "cs \<noteq> []" by (cases cs) simp_all
  with cs have bad: "LabelEncoder_transform (Object (np_unique xs)) codes = Inl ValueError"
    by simp
  have "map fst out = map fst data"
    using encode_items_names [OF out] by simp
  then have "fst ` set out = fst ` set data"
    by (metis image_set)
  with present have keys: "fst ` set items \<subseteq> fst ` set out"
    by (auto simp: items_def)
  have "encode_items out items out = Inl ValueError"
    using encode_items_ValueError [OF keys mem codes(2) bad] .
  then have "EncodeCategorical_transform enc out = Inl ValueError"
    by (simp add: EncodeCategorical_transform_def enc_def)
  moreover have "EncodeCategorical_transform enc data = Inr out"
    using out by (simp add: EncodeCategorical_transform_def enc_def)
  ultimately show ?thesis using fit by blast
qed

theorem EncodeCategorical_transform_twice_fails_witness:
  "\<exists>enc out.
      EncodeCategorical_fit (EncodeCategorical_init (Some [''workclass''])) adult_data None = Inr enc
    \<and> EncodeCategorical_transform enc adult_data = Inr out
    \<and> EncodeCategorical_transform enc out = Inl ValueError"
  by (rule EncodeCategorical_transform_twice_fails
        [where fitted = "[''workclass'']" and c = "''workclass''"
           and xs = "['' State-gov'', '' Private'', '' Private'', '' Self-emp-not-inc'', '' ?'']"])
     (simp_all add: adult_data_def)

section \<open>The session at the console\<close>

lemma rejects_turned_down: "rejects valid (CHR '' '' # entry) = turned_down valid entry"
  by (cases valid) (simp_all add: rejects_def turned_down_def)

lemma asked_Nil: "asked [] = []"
  by (simp add: asked_def)

lemma asked_Cons:
  "asked (c # columns) = (if c = ''fnlwgt'' then asked columns else c # asked columns)"
  by (simp add: asked_def)

lemma asked_set: "set (asked columns) = set columns - {''fnlwgt''}"
  by (auto simp: asked_def)

lemma typed_Nil: "typed [] = []"
  by (simp add: typed_def)

lemma typed_Cons: "typed (a # answers) = fst a @ snd a # typed answers"
  by (simp add: typed_def)

lemma transcript_Nil: "transcript cats [] answers = []"
  by (simp add: transcript_def)

lemma transcript_Cons:
  "transcript cats (c # columns) (a # answers)
     = dialogue c (map_of cats c) a @ transcript cats columns answers"
  by (simp add: transcript_def)

lemma prompt_inj: "prompt c = prompt c' \<longleftrightarrow> c = c'"
  by (simp add: prompt_def)

lemma dialogue_events:
  "prompt c \<in> set (dialogue c valid a) \<and> (c' \<noteq> c \<longrightarrow> prompt c' \<notin> set (dialogue c valid a))"
  by (auto simp: dialogue_def prompt_def complaint_def)

lemma prompt_loop_retry:
  "list_all (turned_down valid) bad \<Longrightarrow> \<not> turned_down valid good \<Longrightarrow>
   prompt_loop column valid (bad @ good # rest) out
     = Inr (CHR '' '' # good, rest,
            out @ concat (map (\<lambda>entry. [prompt column, complaint valid]) bad) @ [prompt column])"
  by (induction bad arbitrary: out) (simp_all add: rejects_turned_down)

lemma prompt_loop_fits:
  "fits valid a \<Longrightarrow>
   prompt_loop column valid (fst a @ snd a # rest) out
     = Inr (CHR '' '' # snd a, rest, out @ dialogue column valid a)"
  using prompt_loop_retry [of valid "fst a" "snd a" column rest out]
  by (simp add: fits_def dialogue_def)

lemma prompt_loop_exhausted:
  "list_all (turned_down valid) stdin \<Longrightarrow> prompt_loop column valid stdin out = Inl EOFError"
  by (induction stdin arbitrary: out) (simp_all add: rejects_turned_down)

lemma prompt_loop_shorter:
  "prompt_loop column valid stdin out = Inr (val, stdin', out') \<Longrightarrow> length stdin' < length stdin"
proof (induction stdin arbitrary: out)
  case Nil
  then show ?case by simp
next
  case (Cons line stdin)
  show ?case
  proof (cases "rejects valid ('' '' @ line)")
    case True
    with Cons.prems have "prompt_loop column valid stdin
        (out @ [prompt column] @ [complaint valid]) = Inr (val, stdin', out')"
      by simp
    from Cons.IH [OF this] show ?thesis by simp
  next
    case False
    with Cons.prems show ?thesis by auto
  qed
qed

lemma prompt_loop_result:
  "prompt_loop column valid stdin out = Inr (val, stdin', out') \<Longrightarrow>
   \<exists>a. fits valid a \<and> stdin = fst a @ snd a # stdin' \<and> val = CHR '' '' # snd a
     \<and> out' = out @ dialogue column valid a"
proof (induction stdin arbitrary: out)
  case Nil
  then show ?case by simp
next
  case (Cons line stdin)
  show ?case
  proof (cases "turned_down valid line")
    case True
    with Cons.prems have "prompt_loop column valid stdin
        (out @ [prompt column, complaint valid]) = Inr (val, stdin', out')"
      by (simp add: rejects_turned_down)
    from Cons.IH [OF this] obtain a where
      a: "fits valid a" "stdin = fst a @ snd a # stdin'" "val = CHR '' '' # snd a"
        "out' = (out @ [prompt column, complaint valid]) @ dialogue column valid a"
      by blast
    with True show ?thesis
      by (intro exI [of _ "(line # fst a, snd a)"]) (simp add: fits_def dialogue_def)
  next
    case False
    with Cons.prems show ?thesis
      by (intro exI [of _ "([], line)"]) (auto simp: rejects_turned_down fits_def dialogue_def)
  qed
qed

lemma collect_frame:
  "collect columns cats known stdin out = Inr (data, stdin', out') \<Longrightarrow> c \<notin> set columns \<Longrightarrow>
   map_of data c = map_of known c"
proof (induction columns arbitrary: known stdin out)
  case Nil
  then show ?case by simp
next
  case (Cons column columns)
  from Cons.prems(2) have neq: "c \<noteq> column" and notin: "c \<notin> set columns" by auto
  show ?case
  proof (cases "column = ''fnlwgt''")
    case True
    with Cons.prems(1) have "collect columns cats (AList.update column (Num 189778) known) stdin out
        = Inr (data, stdin', out')" by simp
    from Cons.IH [OF this notin] neq show ?thesis by (simp add: update_conv')
  next
    case False
    with Cons.prems(1) obtain val stdin1 out1 where
      "collect columns cats (AList.update column (Str val) known) stdin1 out1
        = Inr (data, stdin', out')"
      by (auto split: sum.splits)
    from Cons.IH [OF this notin] neq show ?thesis by (simp add: update_conv')
  qed
qed

lemma collect_fnlwgt:
  "collect columns cats known stdin out = Inr (data, stdin', out') \<Longrightarrow>
   ''fnlwgt'' \<in> set columns \<or> map_of known ''fnlwgt'' = Some (Num 189778) \<Longrightarrow>
   map_of data ''fnlwgt'' = Some (Num 189778)"
proof (induction columns arbitrary: known stdin out)
  case Nil
  then show ?case by simp
next
  case (Cons column columns)
  show ?case
  proof (cases "column = ''fnlwgt''")
    case True
    with Cons.prems(1) have step:
      "collect columns cats (AList.update ''fnlwgt'' (Num 189778) known) stdin out
        = Inr (data, stdin', out')" by simp
    show ?thesis by (rule Cons.IH [OF step]) (simp add: update_conv')
  next
    case False
    with Cons.prems(1) obtain val stdin1 out1 where
      step: "collect columns cats (AList.update column (Str val) known) stdin1 out1
        = Inr (data, stdin', out')"
      by (auto split: sum.splits)
    from Cons.prems(2) False
    have "''fnlwgt'' \<in> set columns
        \<or> map_of (AList.update column (Str val) known) ''fnlwgt'' = Some (Num 189778)"
      by (auto simp: update_conv')
    from Cons.IH [OF step this] show ?thesis .
  qed
qed

text \<open>
  A session that fits the domains is read to its end, and shows the transcript of the
  session. The values stored are the entries taken, each with a blank in front.
\<close>

lemma collect_session:
  "list_all2 (\<lambda>c a. fits (map_of cats c) a) (asked columns) answers \<Longrightarrow>
   \<exists>data. collect columns cats known (typed answers @ rest) out
       = Inr (data, rest, out @ transcript cats (asked columns) answers)
     \<and> (distinct columns \<longrightarrow>
          list_all2 (\<lambda>c a. map_of data c = Some (Str (CHR '' '' # snd a))) (asked columns) answers)"
proof (induction columns arbitrary: known answers out)
  case Nil
  then show ?case by (simp add: asked_Nil typed_Nil transcript_Nil)
next
  case (Cons column columns)
  show ?case
  proof (cases "column = ''fnlwgt''")
    case True
    with Cons.prems have "list_all2 (\<lambda>c a. fits (map_of cats c) a) (asked columns) answers"
      by (simp add: asked_Cons)
    from Cons.IH [OF this, of "AList.update column (Num 189778) known" out] True
    show ?thesis by (auto simp: asked_Cons)
  next
    case False
    with Cons.prems obtain a as where answers: "answers = a # as"
      and a: "fits (map_of cats column) a"
      and as: "list_all2 (\<lambda>c a. fits (map_of cats c) a) (asked columns) as"
      by (auto simp: asked_Cons list_all2_Cons1)
    from Cons.IH [OF as, of "AList.update column (Str (CHR '' '' # snd a)) known"
        "out @ dialogue column (map_of cats column) a"]
    obtain data where
      run: "collect columns cats (AList.update column (Str (CHR '' '' # snd a)) known)
          (typed as @ rest) (out @ dialogue column (map_of cats column) a)
        = Inr (data, rest, (out @ dialogue column (map_of cats column) a)
                 @ transcript cats (asked columns) as)"
      and filled: "distinct columns \<longrightarrow>
         list_all2 (\<lambda>c a. map_of data c = Some (Str (CHR '' '' # snd a))) (asked columns) as"
      by blast
    have loop: "prompt_loop column (map_of cats column) (fst a @ snd a # typed as @ rest) out
        = Inr (CHR '' '' # snd a, typed as @ rest, out @ dialogue column (map_of cats column) a)"
      by (rule prompt_loop_fits [OF a])
    have whole: "collect (column # columns) cats known (typed answers @ rest) out
        = Inr (data, rest, out @ transcript cats (asked (column # columns)) answers)"
      using False loop run answers by (simp add: asked_Cons typed_Cons transcript_Cons)
    have "list_all2 (\<lambda>c a. map_of data c = Some (Str (CHR '' '' # snd a)))
        (asked (column # columns)) answers" if dist: "distinct (column # columns)"
    proof -
      from dist have fresh: "column \<notin> set columns" and "distinct columns" by simp_all
      from collect_frame [OF run fresh]
      have "map_of data column = Some (Str (CHR '' '' # snd a))"
        by (simp add: update_conv')
      with filled \<open>distinct columns\<close> False answers show ?thesis by (simp add: asked_Cons)
    qed
    with whole show ?thesis by blast
  qed
qed

text \<open>Whatever is read is such a session.\<close>

lemma collect_answers:
  "collect columns cats known stdin out = Inr (data, stdin', out') \<Longrightarrow>
   \<exists>answers. list_all2 (\<lambda>c a. fits (map_of cats c) a) (asked columns) answers
     \<and> stdin = typed answers @ stdin'
     \<and> out' = out @ transcript cats (asked columns) answers"
proof (induction columns arbitrary: known stdin out)
  case Nil
  then show ?case by (simp add: asked_Nil typed_Nil transcript_Nil)
next
  case (Cons column columns)
  show ?case
  proof (cases "column = ''fnlwgt''")
    case True
    with Cons.prems have "collect columns cats (AList.update column (Num 189778) known) stdin out
        = Inr (data, stdin', out')" by simp
    from Cons.IH [OF this] True show ?thesis by (simp add: asked_Cons)
  next
    case False
    with Cons.prems obtain val stdin1 out1 where
      loop: "prompt_loop column (map_of cats column) stdin out = Inr (val, stdin1, out1)"
      and step: "collect columns cats (AList.update column (Str val) known) stdin1 out1
        = Inr (data, stdin', out')"
      by (auto split: sum.splits)
    from prompt_loop_result [OF loop] obtain a where
      a: "fits (map_of cats column) a" "stdin = fst a @ snd a # stdin1"
        "out1 = out @ dialogue column (map_of cats column) a"
      by blast
    from Cons.IH [OF step] obtain as where
      as: "list_all2 (\<lambda>c a. fits (map_of cats c) a) (asked columns) as"
        "stdin1 = typed as @ stdin'"
        "out' = out1 @ transcript cats (asked columns) as"
      by blast
    from a as False show ?thesis
      by (intro exI [of _ "a # as"]) (simp add: asked_Cons typed_Cons transcript_Cons)
  qed
qed

lemma collect_stored:
  assumes run: "collect columns cats known stdin out = Inr (data, stdin', out')"
  shows "\<exists>answers. list_all2 (\<lambda>c a. fits (map_of cats c) a) (asked columns) answers
     \<and> stdin = typed answers @ stdin'
     \<and> out' = out @ transcript cats (asked columns) answers
     \<and> (distinct columns \<longrightarrow>
          list_all2 (\<lambda>c a. map_of data c = Some (Str (CHR '' '' # snd a))) (asked columns) answers)"
proof -
  from collect_answers [OF run] obtain answers where
    answers: "list_all2 (\<lambda>c a. fits (map_of cats c) a) (asked columns) answers"
      "stdin = typed answers @ stdin'"
      "out' = out @ transcript cats (asked columns) answers"
    by blast
  from collect_session [OF answers(1), of known stdin' out] obtain data' where
    again: "collect columns cats known (typed answers @ stdin') out
        = Inr (data', stdin', out @ transcript cats (asked columns) answers)"
    and filled: "distinct columns \<longrightarrow>
          list_all2 (\<lambda>c a. map_of data' c = Some (Str (CHR '' '' # snd a))) (asked columns) answers"
    by blast
  from again run answers(2) have "data' = data" by simp
  with filled answers show ?thesis by blast
qed

lemma transcript_prompts:
  "length answers = length columns \<Longrightarrow> ''fnlwgt'' \<notin> set columns \<Longrightarrow>
   (\<forall>c\<in>set columns. prompt c \<in> set (transcript cats columns answers))
   \<and> prompt ''fnlwgt'' \<notin> set (transcript cats columns answers)"
proof (induction columns arbitrary: answers)
  case Nil
  then show ?case by (simp add: transcript_Nil)
next
  case (Cons column columns)
  then obtain a as where answers: "answers = a # as" and len: "length as = length columns"
    by (cases answers) auto
  from Cons.prems(2) have neq: "''fnlwgt'' \<noteq> column" and notin: "''fnlwgt'' \<notin> set columns"
    by auto
  from Cons.IH [OF len notin] dialogue_events [of column "map_of cats column" a "''fnlwgt''"] neq
    dialogue_events [of column "map_of cats column" a column]
  show ?case unfolding answers transcript_Cons by auto
qed

lemma collect_prompts:
  assumes run: "collect columns cats known stdin out = Inr (data, stdin', out')"
  shows "\<exists>more. out' = out @ more
     \<and> (\<forall>c\<in>set columns. c \<noteq> ''fnlwgt'' \<longrightarrow> prompt c \<in> set more)
     \<and> prompt ''fnlwgt'' \<notin> set more
     \<and> (''fnlwgt'' \<in> set columns \<longrightarrow> map_of data ''fnlwgt'' = Some (Num 189778))"
proof -
  from collect_answers [OF run] obtain answers where
    answers: "list_all2 (\<lambda>c a. fits (map_of cats c) a) (asked columns) answers"
      "out' = out @ transcript cats (asked columns) answers"
    by blast
  from answers(1) have "length answers = length (asked columns)"
    by (simp add: list_all2_lengthD)
  moreover have "''fnlwgt'' \<notin> set (asked columns)" by (simp add: asked_set)
  ultimately have "(\<forall>c\<in>set (asked columns). prompt c \<in> set (transcript cats (asked columns) answers))
      \<and> prompt ''fnlwgt'' \<notin> set (transcript cats (asked columns) answers)"
    by (rule transcript_prompts)
  moreover have "''fnlwgt'' \<in> set columns \<longrightarrow> map_of data ''fnlwgt'' = Some (Num 189778)"
    using collect_fnlwgt [OF run] by blast
  ultimately show ?thesis using answers(2)
    by (intro exI [of _ "transcript cats (asked columns) answers"]) (simp add: asked_set)
qed

lemma np_unique_Nil: "np_unique xs = [] \<longleftrightarrow> xs = []"
  by (metis np_unique_props(3) set_empty)

lemma inverse_transform_Inr:
  assumes "inverse_transform classes y = Inr labels"
  shows "labels = map (\<lambda>i. classes ! nat i) y \<and> (\<forall>i\<in>set y. 0 \<le> i \<and> nat i < length classes)"
proof -
  let ?bad = "filter (\<lambda>i. i < 0 \<or> int (length classes) \<le> i) y"
  from assms have "np_unique ?bad = []" and labels: "labels = map (\<lambda>i. classes ! nat i) y"
    by (auto simp: inverse_transform_def Let_def split: if_splits)
  then have "?bad = []" by (simp only: np_unique_Nil)
  then have "\<forall>i\<in>set y. \<not> (i < 0 \<or> int (length classes) \<le> i)"
    by (simp add: filter_empty_conv)
  then have "\<forall>i\<in>set y. 0 \<le> i \<and> nat i < length classes" by auto
  with labels show ?thesis by simp
qed

lemma inverse_transform_single:
  "0 \<le> code \<Longrightarrow> nat code < length classes \<Longrightarrow>
   inverse_transform classes [code] = Inr [classes ! nat code]"
  by (simp add: inverse_transform_def np_unique_def)

lemma collect_entry:
  assumes "c \<noteq> ''fnlwgt''"
    and "list_all (turned_down (map_of cats c)) bad" and "\<not> turned_down (map_of cats c) good"
  shows "collect (c # columns) cats known (bad @ good # rest) out
     = collect columns cats (AList.update c (Str (CHR '' '' # good)) known) rest
         (out @ concat (map (\<lambda>entry. [prompt c, complaint (map_of cats c)]) bad) @ [prompt c])"
  using assms(1) prompt_loop_retry [OF assms(2,3), of c rest out] by simp

lemma collect_exhausted:
  assumes "c \<noteq> ''fnlwgt''" and "list_all (turned_down (map_of cats c)) stdin"
  shows "collect (c # columns) cats known stdin out = Inl EOFError"
  using assms(1) prompt_loop_exhausted [OF assms(2), of c out] by simp

lemma collect_first_attempt:
  assumes c: "c \<noteq> ''fnlwgt''" and d: "map_of cats c = Some d" "d \<noteq> []"
  shows "(\<exists>data out'. collect [c] cats known (line # rest) out = Inr (data, rest, out'))
     = (CHR '' '' # line \<in> set d)"
proof (cases "CHR '' '' # line \<in> set d")
  case True
  with c d show ?thesis by (simp add: rejects_def)
next
  case False
  have "collect [c] cats known (line # rest) out \<noteq> Inr (data, rest, out')" for data out'
  proof
    assume run: "collect [c] cats known (line # rest) out = Inr (data, rest, out')"
    with c d False obtain val where
      "prompt_loop c (Some d) rest (out @ [prompt c, complaint (Some d)]) = Inr (val, rest, out')"
      by (auto simp: rejects_def split: sum.splits)
    from prompt_loop_shorter [OF this] show False by simp
  qed
  with False show ?thesis by simp
qed

lemma fits_domain:
  assumes "fits valid a"
  shows "(\<forall>d. valid = Some d \<and> d \<noteq> [] \<longrightarrow>
            CHR '' '' # snd a \<in> set d \<and> (\<forall>b\<in>set (fst a). CHR '' '' # b \<notin> set d))
       \<and> (valid = None \<or> valid = Some [] \<longrightarrow> fst a = [])"
proof (cases valid)
  case None
  with assms show ?thesis by (cases "fst a") (simp_all add: fits_def turned_down_def)
next
  case (Some d)
  show ?thesis
  proof (cases "d = []")
    case True
    with Some assms show ?thesis by (cases "fst a") (simp_all add: fits_def turned_down_def)
  next
    case False
    with Some assms show ?thesis by (simp add: fits_def turned_down_def list_all_iff)
  qed
qed

text \<open>
  Claim C9, as amended. The loop over the features prompts for every feature except
  \<^verbatim>\<open>fnlwgt\<close>, numeric ones included, never prompts for \<^verbatim>\<open>fnlwgt\<close>, and stores 189778
  for it. For a feature with a domain, each entry whose blank-prefixed form is not in
  the domain is answered with the complaint and the prompt again, as often as such
  entries come, and the first entry in the domain is taken; when the input ends before
  that, the function stops with \<^verbatim>\<open>EOFError\<close>. For a feature without a domain the first
  entry is taken. So a session in which every feature's entries are turned down by that
  feature's own domain until one is not is read to its end, shows exactly the prompts
  and complaints of that session and stores the entries taken; when the model then
  predicts one code of a known class, the function returns after printing that class's
  name. Whenever the function returns, it has read such a session, and the last thing
  written is the name of the class the model predicted first.
\<close>

theorem predict_session:
  "(list_all2 (\<lambda>c a. fits (map_of (categorical_features m) c) a)
        (asked (butlast (feature_names m))) answers \<longrightarrow>
      (\<exists>row.
          collect (butlast (feature_names m)) (categorical_features m) [] (typed answers @ rest) []
            = Inr (row, rest,
                   transcript (categorical_features m) (asked (butlast (feature_names m))) answers)
        \<and> (distinct (butlast (feature_names m)) \<longrightarrow>
             list_all2 (\<lambda>c a. map_of row c = Some (Str (CHR '' '' # snd a)))
               (asked (butlast (feature_names m))) answers)
        \<and> (''fnlwgt'' \<in> set (butlast (feature_names m)) \<longrightarrow>
             map_of row ''fnlwgt'' = Some (Num 189778))
        \<and> (model (DataFrame row) = Inr [code] \<and> 0 \<le> code \<and> nat code < length classes \<longrightarrow>
             predict model m classes (typed answers @ rest)
               = Inr (rest,
                      transcript (categorical_features m) (asked (butlast (feature_names m))) answers
                        @ [Print (''We predict that you make '' @ classes ! nat code)]))))
   \<and> (predict model m classes stdin = Inr (stdin', out') \<longrightarrow>
        (\<exists>answers row code codes.
            list_all2 (\<lambda>c a. fits (map_of (categorical_features m) c) a)
              (asked (butlast (feature_names m))) answers
          \<and> stdin = typed answers @ stdin'
          \<and> collect (butlast (feature_names m)) (categorical_features m) [] stdin []
              = Inr (row, stdin',
                     transcript (categorical_features m) (asked (butlast (feature_names m))) answers)
          \<and> model (DataFrame row) = Inr (code # codes)
          \<and> 0 \<le> code \<and> nat code < length classes
          \<and> out' = transcript (categorical_features m) (asked (butlast (feature_names m))) answers
                @ [Print (''We predict that you make '' @ classes ! nat code)]))
   \<and> (collect columns cats known stdin out = Inr (data, stdin', out') \<longrightarrow>
        (\<exists>more. out' = out @ more
           \<and> (\<forall>c\<in>set columns. c \<noteq> ''fnlwgt'' \<longrightarrow> prompt c \<in> set more)
           \<and> prompt ''fnlwgt'' \<notin> set more
           \<and> (''fnlwgt'' \<in> set columns \<longrightarrow> map_of data ''fnlwgt'' = Some (Num 189778))))
   \<and> (c \<noteq> ''fnlwgt'' \<and> map_of cats c = Some d
        \<and> (\<forall>b\<in>set bad. CHR '' '' # b \<notin> set d) \<and> CHR '' '' # good \<in> set d \<longrightarrow>
        collect (c # columns) cats known (bad @ good # rest) out
          = collect columns cats (AList.update c (Str (CHR '' '' # good)) known) rest
              (out @ concat (map (\<lambda>b. [RawInput (''enter '' @ c @ '' >''),
                                        Print (''Not valid, choose one of '' @ repr_list d)]) bad)
                 @ [RawInput (''enter '' @ c @ '' >'')]))
   \<and> (c \<noteq> ''fnlwgt'' \<and> map_of cats c = Some d \<and> d \<noteq> []
        \<and> (\<forall>b\<in>set stdin. CHR '' '' # b \<notin> set d) \<longrightarrow>
        collect (c # columns) cats known stdin out = Inl EOFError)
   \<and> (c \<noteq> ''fnlwgt'' \<and> map_of cats c = None \<longrightarrow>
        collect (c # columns) cats known (line # rest) out
          = collect columns cats (AList.update c (Str (CHR '' '' # line)) known) rest
              (out @ [RawInput (''enter '' @ c @ '' >'')]))"
proof (intro conjI impI)
  let ?columns = "butlast (feature_names m)"
  let ?cats = "categorical_features m"
  assume "list_all2 (\<lambda>c a. fits (map_of ?cats c) a) (asked ?columns) answers"
  from collect_session [OF this, of "[]" rest "[]"] obtain row where
    run: "collect ?columns ?cats [] (typed answers @ rest) []
        = Inr (row, rest, transcript ?cats (asked ?columns) answers)"
    and filled: "distinct ?columns \<longrightarrow>
      list_all2 (\<lambda>c a. map_of row c = Some (Str (CHR '' '' # snd a))) (asked ?columns) answers"
    by auto
  have weight: "''fnlwgt'' \<in> set ?columns \<longrightarrow> map_of row ''fnlwgt'' = Some (Num 189778)"
    using collect_fnlwgt [OF run] by blast
  have "predict model m classes (typed answers @ rest)
      = Inr (rest, transcript ?cats (asked ?columns) answers
               @ [Print (''We predict that you make '' @ classes ! nat code)])"
    if "model (DataFrame row) = Inr [code] \<and> 0 \<le> code \<and> nat code < length classes"
    using that run by (simp add: predict_def inverse_transform_single)
  with run filled weight show "\<exists>row.
          collect ?columns ?cats [] (typed answers @ rest) []
            = Inr (row, rest, transcript ?cats (asked ?columns) answers)
        \<and> (distinct ?columns \<longrightarrow>
             list_all2 (\<lambda>c a. map_of row c = Some (Str (CHR '' '' # snd a))) (asked ?columns) answers)
        \<and> (''fnlwgt'' \<in> set ?columns \<longrightarrow> map_of row ''fnlwgt'' = Some (Num 189778))
        \<and> (model (DataFrame row) = Inr [code] \<and> 0 \<le> code \<and> nat code < length classes \<longrightarrow>
             predict model m classes (typed answers @ rest)
               = Inr (rest, transcript ?cats (asked ?columns) answers
                        @ [Print (''We predict that you make '' @ classes ! nat code)]))"
    by (intro exI [of _ row]) simp
next
  let ?columns = "butlast (feature_names m)"
  let ?cats = "categorical_features m"
  assume "predict model m classes stdin = Inr (stdin', out')"
  then obtain row shown yhat label labels where
    c: "collect ?columns ?cats [] stdin [] = Inr (row, stdin', shown)"
    and y: "model (DataFrame row) = Inr yhat"
      "inverse_transform classes yhat = Inr (label # labels)"
      "out' = shown @ [Print (''We predict that you make '' @ label)]"
    by (auto simp: predict_def split: sum.splits list.splits)
  from inverse_transform_Inr [OF y(2)]
  have labels: "label # labels = map (\<lambda>i. classes ! nat i) yhat"
    and range: "\<forall>i\<in>set yhat. 0 \<le> i \<and> nat i < length classes"
    by simp_all
  from labels obtain code codes where yhat: "yhat = code # codes" by (cases yhat) auto
  with labels range have code: "0 \<le> code" "nat code < length classes" "label = classes ! nat code"
    by simp_all
  from collect_answers [OF c] obtain answers where
    answers: "list_all2 (\<lambda>c a. fits (map_of ?cats c) a) (asked ?columns) answers"
      "stdin = typed answers @ stdin'"
      "shown = [] @ transcript ?cats (asked ?columns) answers"
    by blast
  with c y yhat code show "\<exists>answers row code codes.
            list_all2 (\<lambda>c a. fits (map_of ?cats c) a) (asked ?columns) answers
          \<and> stdin = typed answers @ stdin'
          \<and> collect ?columns ?cats [] stdin []
              = Inr (row, stdin', transcript ?cats (asked ?columns) answers)
          \<and> model (DataFrame row) = Inr (code # codes)
          \<and> 0 \<le> code \<and> nat code < length classes
          \<and> out' = transcript ?cats (asked ?columns) answers
                @ [Print (''We predict that you make '' @ classes ! nat code)]"
    by (intro exI [of _ answers] exI [of _ row] exI [of _ code] exI [of _ codes]) simp
next
  assume "collect columns cats known stdin out = Inr (data, stdin', out')"
  then show "\<exists>more. out' = out @ more
           \<and> (\<forall>c\<in>set columns. c \<noteq> ''fnlwgt'' \<longrightarrow> prompt c \<in> set more)
           \<and> prompt ''fnlwgt'' \<notin> set more
           \<and> (''fnlwgt'' \<in> set columns \<longrightarrow> map_of data ''fnlwgt'' = Some (Num 189778))"
    by (rule collect_prompts)
next
  assume a: "c \<noteq> ''fnlwgt'' \<and> map_of cats c = Some d
        \<and> (\<forall>b\<in>set bad. CHR '' '' # b \<notin> set d) \<and> CHR '' '' # good \<in> set d"
  then have "c \<noteq> ''fnlwgt''" "list_all (turned_down (map_of cats c)) bad"
    "\<not> turned_down (map_of cats c) good"
    by (auto simp: turned_down_def list_all_iff)
  from collect_entry [OF this, of columns known rest out] a
  show "collect (c # columns) cats known (bad @ good # rest) out
          = collect columns cats (AList.update c (Str (CHR '' '' # good)) known) rest
              (out @ concat (map (\<lambda>b. [RawInput (''enter '' @ c @ '' >''),
                                        Print (''Not valid, choose one of '' @ repr_list d)]) bad)
                 @ [RawInput (''enter '' @ c @ '' >'')])"
    by (simp add: prompt_def complaint_def)
next
  assume a: "c \<noteq> ''fnlwgt'' \<and> map_of cats c = Some d \<and> d \<noteq> []
        \<and> (\<forall>b\<in>set stdin. CHR '' '' # b \<notin> set d)"
  then have "c \<noteq> ''fnlwgt''" "list_all (turned_down (map_of cats c)) stdin"
    by (auto simp: turned_down_def list_all_iff)
  then show "collect (c # columns) cats known stdin out = Inl EOFError"
    by (rule collect_exhausted)
next
  assume "c \<noteq> ''fnlwgt'' \<and> map_of cats c = None"
  then show "collect (c # columns) cats known (line # rest) out
          = collect columns cats (AList.update c (Str (CHR '' '' # line)) known) rest
              (out @ [RawInput (''enter '' @ c @ '' >'')])"
    by (simp add: rejects_def prompt_def)
qed

theorem predict_session_witness:
  "predict always_low census_meta ['' <=50K'', '' >50K'']
       [''39'', ''State-gov'', ''Bachelors'', ''13'', ''Never-married'', ''Adm-clerical'',
        ''Not-in-family'', ''White'', ''banana'', ''Male'', ''2174'', ''0'', ''40'',
        ''United-States'']
     = Inr ([],
         [RawInput ''enter age >'', RawInput ''enter workclass >'',
          RawInput ''enter education >'', RawInput ''enter education-num >'',
          RawInput ''enter marital-status >'', RawInput ''enter occupation >'',
          RawInput ''enter relationship >'', RawInput ''enter race >'',
          RawInput ''enter sex >'', Print ''Not valid, choose one of [' Male']'',
          RawInput ''enter sex >'', RawInput ''enter capital-gain >'',
          RawInput ''enter capital-loss >'', RawInput ''enter hours-per-week >'',
          RawInput ''enter native-country >'',
          Print ''We predict that you make  <=50K''])
   \<and> collect [''sex'', ''fnlwgt''] (categorical_features census_meta) []
         [''banana'', ''Female'', ''Male'', ''x''] []
     = Inr ([(''sex'', Str '' Male''), (''fnlwgt'', Num 189778)], [''x''],
         [RawInput ''enter sex >'', Print ''Not valid, choose one of [' Male']'',
          RawInput ''enter sex >'', Print ''Not valid, choose one of [' Male']'',
          RawInput ''enter sex >''])
   \<and> collect [''sex'', ''fnlwgt''] (categorical_features census_meta) [] [''banana'', ''Female''] []
     = Inl EOFError
   \<and> collect [''age''] (categorical_features census_meta) [] [''banana''] []
     = Inr ([(''age'', Str '' banana'')], [], [RawInput ''enter age >''])"
proof -
  let ?classes = "['' <=50K'', '' >50K'']"
  let ?cats = "categorical_features census_meta"
  have session: "list_all2 (\<lambda>c a. fits (map_of ?cats c) a)
      (asked (butlast (feature_names census_meta))) census_session"
    by (simp add: census_meta_def names_def census_session_def asked_def fits_def turned_down_def)
  have entered: "typed census_session
      = [''39'', ''State-gov'', ''Bachelors'', ''13'', ''Never-married'', ''Adm-clerical'',
         ''Not-in-family'', ''White'', ''banana'', ''Male'', ''2174'', ''0'', ''40'',
         ''United-States'']"
    by (simp add: typed_def census_session_def)
  have shown: "transcript ?cats (asked (butlast (feature_names census_meta))) census_session
      = [RawInput ''enter age >'', RawInput ''enter workclass >'',
         RawInput ''enter education >'', RawInput ''enter education-num >'',
         RawInput ''enter marital-status >'', RawInput ''enter occupation >'',
         RawInput ''enter relationship >'', RawInput ''enter race >'',
         RawInput ''enter sex >'', Print ''Not valid, choose one of [' Male']'',
         RawInput ''enter sex >'', RawInput ''enter capital-gain >'',
         RawInput ''enter capital-loss >'', RawInput ''enter hours-per-week >'',
         RawInput ''enter native-country >'']"
    by (simp add: transcript_def asked_def dialogue_def prompt_def complaint_def repr_list_def
        repr_str_def repr_char_def Let_def census_meta_def names_def census_session_def)
  from predict_session
         [where m = census_meta and answers = census_session and rest = "[]"
            and model = always_low and code = 0 and classes = ?classes,
          THEN conjunct1, THEN mp, OF session]
  obtain row where
    "always_low (DataFrame row) = Inr [0] \<and> (0::int) \<le> 0 \<and> nat 0 < length ?classes \<longrightarrow>
       predict always_low census_meta ?classes (typed census_session @ [])
         = Inr ([], transcript ?cats (asked (butlast (feature_names census_meta))) census_session
                  @ [Print (''We predict that you make '' @ ?classes ! nat 0)])"
    by blast
  then have first: "predict always_low census_meta ?classes (typed census_session)
      = Inr ([], transcript ?cats (asked (butlast (feature_names census_meta))) census_session
               @ [Print ''We predict that you make  <=50K''])"
    by (simp add: always_low_def)
  have sex: "''sex'' \<noteq> ''fnlwgt'' \<and> map_of ?cats ''sex'' = Some ['' Male'']
      \<and> (\<forall>b\<in>set [''banana'', ''Female'']. CHR '' '' # b \<notin> set ['' Male''])
      \<and> CHR '' '' # ''Male'' \<in> set ['' Male'']"
    by (simp add: census_meta_def)
  have second: "collect [''sex'', ''fnlwgt''] ?cats [] [''banana'', ''Female'', ''Male'', ''x''] []
     = Inr ([(''sex'', Str '' Male''), (''fnlwgt'', Num 189778)], [''x''],
         [RawInput ''enter sex >'', Print ''Not valid, choose one of [' Male']'',
          RawInput ''enter sex >'', Print ''Not valid, choose one of [' Male']'',
          RawInput ''enter sex >''])"
    using predict_session
         [where c = "''sex''" and cats = ?cats and d = "['' Male'']"
            and bad = "[''banana'', ''Female'']" and good = "''Male''" and rest = "[''x'']"
            and columns = "[''fnlwgt'']" and known = "[]" and out = "[]",
          THEN conjunct2, THEN conjunct2, THEN conjunct2, THEN conjunct1, THEN mp, OF sex]
    by (simp add: repr_list_def repr_str_def repr_char_def Let_def)
  have sex': "''sex'' \<noteq> ''fnlwgt'' \<and> map_of ?cats ''sex'' = Some ['' Male''] \<and> ['' Male''] \<noteq> []
      \<and> (\<forall>b\<in>set [''banana'', ''Female'']. CHR '' '' # b \<notin> set ['' Male''])"
    by (simp add: census_meta_def)
  have third: "collect [''sex'', ''fnlwgt''] ?cats [] [''banana'', ''Female''] [] = Inl EOFError"
    by (rule predict_session
         [where c = "''sex''" and cats = ?cats and d = "['' Male'']"
            and stdin = "[''banana'', ''Female'']",
          THEN conjunct2, THEN conjunct2, THEN conjunct2, THEN conjunct2, THEN conjunct1,
          THEN mp, OF sex'])
  have age: "''age'' \<noteq> ''fnlwgt'' \<and> map_of ?cats ''age'' = None"
    by (simp add: census_meta_def)
  have fourth: "collect [''age''] ?cats [] [''banana''] []
     = Inr ([(''age'', Str '' banana'')], [], [RawInput ''enter age >''])"
    using predict_session
         [where c = "''age''" and cats = ?cats and line = "''banana''" and rest = "[]"
            and columns = "[]" and known = "[]" and out = "[]",
          THEN conjunct2, THEN conjunct2, THEN conjunct2, THEN conjunct2, THEN conjunct2,
          THEN mp, OF age]
    by simp
  from first entered shown second third fourth show ?thesis by simp
qed

text \<open>
  Claim C9 as it was stated fails: \<^verbatim>\<open>age\<close> is a numeric column of the sample frame
  and has no entry in the categorical features, and the session is prompted for it (and
  for the other numeric features but \<^verbatim>\<open>fnlwgt\<close>).
\<close>

theorem predict_prompts_numeric_counterexample:
  "make_meta census_sample = Inr census_meta
   \<and> map_of census_sample ''age'' = Some (Int64 [39, 52])
   \<and> map_of (categorical_features census_meta) ''age'' = None
   \<and> predict always_low census_meta ['' <=50K'', '' >50K'']
       [''39'', ''State-gov'', ''Bachelors'', ''13'', ''Never-married'', ''Adm-clerical'',
        ''Not-in-family'', ''White'', ''Male'', ''2174'', ''0'', ''40'', ''United-States'']
       = Inr ([],
           [RawInput ''enter age >'', RawInput ''enter workclass >'',
            RawInput ''enter education >'', RawInput ''enter education-num >'',
            RawInput ''enter marital-status >'', RawInput ''enter occupation >'',
            RawInput ''enter relationship >'', RawInput ''enter race >'',
            RawInput ''enter sex >'', RawInput ''enter capital-gain >'',
            RawInput ''enter capital-loss >'', RawInput ''enter hours-per-week >'',
            RawInput ''enter native-country >'',
            Print ''We predict that you make  <=50K''])"
  by (simp add: make_meta_def census_sample_def census_meta_def names_def pd_unique_def
      predict_def rejects_def prompt_def always_low_def
      inverse_transform_def np_unique_def)

text \<open>
  Claim C10, as amended. Whenever the loop over the features returns, what was read is
  a session in which, feature by feature, entries were turned down and then one was
  taken; for a feature whose domain is a non-empty list the entry taken, with one blank
  in front, is a member of that domain and none of the entries turned down is, and for
  a feature with no domain or with an empty one nothing is turned down. What is stored
  for a prompted feature is the entry taken with exactly one blank in front. Conversely
  every such session is read to its end. So for a feature with a non-empty domain an
  entry is taken at the first attempt exactly when the entry with a blank in front is
  in the domain, any other entry is answered with the complaint and the prompt again,
  and for a feature with no domain or an empty one every entry is taken at the first
  attempt.
\<close>

theorem collect_validation:
  "(collect columns cats known stdin out = Inr (data, stdin', out') \<longrightarrow>
      (\<exists>answers.
           stdin = typed answers @ stdin'
         \<and> out' = out @ transcript cats (asked columns) answers
         \<and> list_all2 (\<lambda>c a. fits (map_of cats c) a) (asked columns) answers
         \<and> list_all2 (\<lambda>c a.
               (\<forall>d. map_of cats c = Some d \<and> d \<noteq> [] \<longrightarrow>
                  CHR '' '' # snd a \<in> set d \<and> (\<forall>b\<in>set (fst a). CHR '' '' # b \<notin> set d))
             \<and> (map_of cats c = None \<or> map_of cats c = Some [] \<longrightarrow> fst a = []))
             (asked columns) answers
         \<and> (distinct columns \<longrightarrow>
              list_all2 (\<lambda>c a. map_of data c = Some (Str (CHR '' '' # snd a)))
                (asked columns) answers)))
   \<and> (list_all2 (\<lambda>c a. fits (map_of cats c) a) (asked columns) answers \<longrightarrow>
        (\<exists>data. collect columns cats known (typed answers @ rest) out
             = Inr (data, rest, out @ transcript cats (asked columns) answers)
           \<and> (distinct columns \<longrightarrow>
                list_all2 (\<lambda>c a. map_of data c = Some (Str (CHR '' '' # snd a)))
                  (asked columns) answers)))
   \<and> (c \<noteq> ''fnlwgt'' \<and> map_of cats c = Some d \<and> d \<noteq> [] \<longrightarrow>
        (\<exists>data out'. collect [c] cats known (line # rest) out = Inr (data, rest, out'))
          = (CHR '' '' # line \<in> set d))
   \<and> (c \<noteq> ''fnlwgt'' \<and> map_of cats c = Some d \<and> CHR '' '' # line \<in> set d \<longrightarrow>
        collect (c # columns) cats known (line # rest) out
          = collect columns cats (AList.update c (Str (CHR '' '' # line)) known) rest
              (out @ [RawInput (''enter '' @ c @ '' >'')]))
   \<and> (c \<noteq> ''fnlwgt'' \<and> map_of cats c = Some d \<and> d \<noteq> [] \<and> CHR '' '' # line \<notin> set d \<longrightarrow>
        collect (c # columns) cats known (line # rest) out
          = collect (c # columns) cats known rest
              (out @ [RawInput (''enter '' @ c @ '' >''),
                      Print (''Not valid, choose one of '' @ repr_list d)]))
   \<and> (c \<noteq> ''fnlwgt'' \<and> (map_of cats c = None \<or> map_of cats c = Some []) \<longrightarrow>
        collect (c # columns) cats known (line # rest) out
          = collect columns cats (AList.update c (Str (CHR '' '' # line)) known) rest
              (out @ [RawInput (''enter '' @ c @ '' >'')]))"
proof (intro conjI impI)
  assume "collect columns cats known stdin out = Inr (data, stdin', out')"
  from collect_stored [OF this] obtain answers where
    answers: "list_all2 (\<lambda>c a. fits (map_of cats c) a) (asked columns) answers"
      "stdin = typed answers @ stdin'"
      "out' = out @ transcript cats (asked columns) answers"
      "distinct columns \<longrightarrow>
          list_all2 (\<lambda>c a. map_of data c = Some (Str (CHR '' '' # snd a))) (asked columns) answers"
    by blast
  from answers(1) have "list_all2 (\<lambda>c a.
               (\<forall>d. map_of cats c = Some d \<and> d \<noteq> [] \<longrightarrow>
                  CHR '' '' # snd a \<in> set d \<and> (\<forall>b\<in>set (fst a). CHR '' '' # b \<notin> set d))
             \<and> (map_of cats c = None \<or> map_of cats c = Some [] \<longrightarrow> fst a = []))
             (asked columns) answers"
    by (rule list_all2_mono) (rule fits_domain)
  with answers show "\<exists>answers.
           stdin = typed answers @ stdin'
         \<and> out' = out @ transcript cats (asked columns) answers
         \<and> list_all2 (\<lambda>c a. fits (map_of cats c) a) (asked columns) answers
         \<and> list_all2 (\<lambda>c a.
               (\<forall>d. map_of cats c = Some d \<and> d \<noteq> [] \<longrightarrow>
                  CHR '' '' # snd a \<in> set d \<and> (\<forall>b\<in>set (fst a). CHR '' '' # b \<notin> set d))
             \<and> (map_of cats c = None \<or> map_of cats c = Some [] \<longrightarrow> fst a = []))
             (asked columns) answers
         \<and> (distinct columns \<longrightarrow>
              list_all2 (\<lambda>c a. map_of data c = Some (Str (CHR '' '' # snd a)))
                (asked columns) answers)"
    by (intro exI [of _ answers] conjI)
next
  assume "list_all2 (\<lambda>c a. fits (map_of cats c) a) (asked columns) answers"
  then show "\<exists>data. collect columns cats known (typed answers @ rest) out
             = Inr (data, rest, out @ transcript cats (asked columns) answers)
           \<and> (distinct columns \<longrightarrow>
                list_all2 (\<lambda>c a. map_of data c = Some (Str (CHR '' '' # snd a)))
                  (asked columns) answers)"
    by (rule collect_session)
next
  assume "c \<noteq> ''fnlwgt'' \<and> map_of cats c = Some d \<and> d \<noteq> []"
  then have "c \<noteq> ''fnlwgt''" "map_of cats c = Some d" "d \<noteq> []" by simp_all
  then show "(\<exists>data out'. collect [c] cats known (line # rest) out = Inr (data, rest, out'))
          = (CHR '' '' # line \<in> set d)"
    by (rule collect_first_attempt)
next
  assume "c \<noteq> ''fnlwgt'' \<and> map_of cats c = Some d \<and> CHR '' '' # line \<in> set d"
  then show "collect (c # columns) cats known (line # rest) out
          = collect columns cats (AList.update c (Str (CHR '' '' # line)) known) rest
              (out @ [RawInput (''enter '' @ c @ '' >'')])"
    by (simp add: rejects_def prompt_def)
next
  assume "c \<noteq> ''fnlwgt'' \<and> map_of cats c = Some d \<and> d \<noteq> [] \<and> CHR '' '' # line \<notin> set d"
  then show "collect (c # columns) cats known (line # rest) out
          = collect (c # columns) cats known rest
              (out @ [RawInput (''enter '' @ c @ '' >''),
                      Print (''Not valid, choose one of '' @ repr_list d)])"
    by (simp add: rejects_def prompt_def complaint_def)
next
  assume "c \<noteq> ''fnlwgt'' \<and> (map_of cats c = None \<or> map_of cats c = Some [])"
  then show "collect (c # columns) cats known (line # rest) out
          = collect columns cats (AList.update c (Str (CHR '' '' # line)) known) rest
              (out @ [RawInput (''enter '' @ c @ '' >'')])"
    by (auto simp: rejects_def prompt_def)
qed

theorem collect_validation_witness:
  "collect [''sex'', ''age''] [(''sex'', ['' Male'', '' Female''])] []
       [''male'', ''Male'', ''39'', ''x''] []
     = Inr ([(''sex'', Str '' Male''), (''age'', Str '' 39'')], [''x''],
         [RawInput ''enter sex >'', Print ''Not valid, choose one of [' Male', ' Female']'',
          RawInput ''enter sex >'', RawInput ''enter age >''])
   \<and> (\<exists>answers. [''male'', ''Male'', ''39'', ''x''] = typed answers @ [''x'']
        \<and> list_all2 (\<lambda>c a. map_of [(''sex'', Str '' Male''), (''age'', Str '' 39'')] c
                            = Some (Str (CHR '' '' # snd a)))
            [''sex'', ''age''] answers
        \<and> list_all2 (\<lambda>c a.
               (\<forall>d. map_of [(''sex'', ['' Male'', '' Female''])] c = Some d \<and> d \<noteq> [] \<longrightarrow>
                  CHR '' '' # snd a \<in> set d \<and> (\<forall>b\<in>set (fst a). CHR '' '' # b \<notin> set d))
             \<and> (map_of [(''sex'', ['' Male'', '' Female''])] c = None
                  \<or> map_of [(''sex'', ['' Male'', '' Female''])] c = Some [] \<longrightarrow> fst a = []))
            [''sex'', ''age''] answers)
   \<and> collect [''sex''] [(''sex'', ['' Male'', '' Female''])] [] [''Female'', ''x''] []
     = Inr ([(''sex'', Str '' Female'')], [''x''], [RawInput ''enter sex >''])
   \<and> collect [''sex''] [(''sex'', ['' Male'', '' Female''])] [] [''male'', ''x''] []
     = Inl EOFError
   \<and> collect [''age''] [(''sex'', ['' Male'', '' Female''])] [] [''thirty-nine''] []
     = Inr ([(''age'', Str '' thirty-nine'')], [], [RawInput ''enter age >''])"
proof -
  let ?cats = "[(''sex'', ['' Male'', '' Female''])]"
  let ?session = "[([''male''], ''Male''), ([], ''39'')]"
  let ?row = "[(''sex'', Str '' Male''), (''age'', Str '' 39'')]"
  let ?shown = "[RawInput ''enter sex >'', Print ''Not valid, choose one of [' Male', ' Female']'',
          RawInput ''enter sex >'', RawInput ''enter age >'']"
  have session: "list_all2 (\<lambda>c a. fits (map_of ?cats c) a) (asked [''sex'', ''age'']) ?session"
    by (simp add: asked_def fits_def turned_down_def)
  from collect_validation
         [where columns = "[''sex'', ''age'']" and cats = ?cats and answers = ?session
            and known = "[]" and rest = "[''x'']" and out = "[]",
          THEN conjunct2, THEN conjunct1, THEN mp, OF session]
  obtain data where "collect [''sex'', ''age''] ?cats [] (typed ?session @ [''x'']) []
      = Inr (data, [''x''], [] @ transcript ?cats (asked [''sex'', ''age'']) ?session)"
    by blast
  then have run: "collect [''sex'', ''age''] ?cats [] [''male'', ''Male'', ''39'', ''x''] []
      = Inr (?row, [''x''], ?shown)"
    by (simp add: typed_def transcript_def asked_def dialogue_def prompt_def complaint_def
        repr_list_def repr_str_def repr_char_def Let_def rejects_def)
  from collect_validation
         [where columns = "[''sex'', ''age'']" and cats = ?cats and known = "[]"
            and stdin = "[''male'', ''Male'', ''39'', ''x'']" and out = "[]"
            and data = ?row and stdin' = "[''x'']" and out' = ?shown,
          THEN conjunct1, THEN mp, OF run]
  have parts: "\<exists>answers. [''male'', ''Male'', ''39'', ''x''] = typed answers @ [''x'']
        \<and> list_all2 (\<lambda>c a. map_of ?row c = Some (Str (CHR '' '' # snd a)))
            [''sex'', ''age''] answers
        \<and> list_all2 (\<lambda>c a.
               (\<forall>d. map_of ?cats c = Some d \<and> d \<noteq> [] \<longrightarrow>
                  CHR '' '' # snd a \<in> set d \<and> (\<forall>b\<in>set (fst a). CHR '' '' # b \<notin> set d))
             \<and> (map_of ?cats c = None \<or> map_of ?cats c = Some [] \<longrightarrow> fst a = []))
            [''sex'', ''age''] answers"
    by (simp add: asked_def) blast
  have female: "''sex'' \<noteq> ''fnlwgt'' \<and> map_of ?cats ''sex'' = Some ['' Male'', '' Female'']
      \<and> CHR '' '' # ''Female'' \<in> set ['' Male'', '' Female'']"
    by simp
  have taken: "collect [''sex''] ?cats [] [''Female'', ''x''] []
      = Inr ([(''sex'', Str '' Female'')], [''x''], [RawInput ''enter sex >''])"
    using collect_validation
         [where c = "''sex''" and cats = ?cats and d = "['' Male'', '' Female'']"
            and line = "''Female''" and rest = "[''x'']" and columns = "[]" and known = "[]"
            and out = "[]",
          THEN conjunct2, THEN conjunct2, THEN conjunct2, THEN conjunct1, THEN mp, OF female]
    by simp
  have male: "''sex'' \<noteq> ''fnlwgt'' \<and> map_of ?cats ''sex'' = Some ['' Male'', '' Female'']
      \<and> ['' Male'', '' Female''] \<noteq> [] \<and> CHR '' '' # ''male'' \<notin> set ['' Male'', '' Female'']"
    by simp
  have refused: "collect [''sex''] ?cats [] [''male'', ''x''] [] = Inl EOFError"
    using collect_validation
         [where c = "''sex''" and cats = ?cats and d = "['' Male'', '' Female'']"
            and line = "''male''" and rest = "[''x'']" and columns = "[]" and known = "[]"
            and out = "[]",
          THEN conjunct2, THEN conjunct2, THEN conjunct2, THEN conjunct2, THEN conjunct1,
          THEN mp, OF male]
    by (simp add: rejects_def)
  have age: "''age'' \<noteq> ''fnlwgt''
      \<and> (map_of ?cats ''age'' = None \<or> map_of ?cats ''age'' = Some [])"
    by simp
  have free: "collect [''age''] ?cats [] [''thirty-nine''] []
      = Inr ([(''age'', Str '' thirty-nine'')], [], [RawInput ''enter age >''])"
    using collect_validation
         [where c = "''age''" and cats = ?cats and line = "''thirty-nine''" and rest = "[]"
            and columns = "[]" and known = "[]" and out = "[]",
          THEN conjunct2, THEN conjunct2, THEN conjunct2, THEN conjunct2, THEN conjunct2,
          THEN mp, OF age]
    by simp
  from run parts taken refused free show ?thesis by (intro conjI)
qed

text \<open>
  Claim C10 as it was stated fails for a feature whose domain is the empty list, as the
  metadata of a frame without rows has it: the lookup returns the list, no string is a
  member of it, and the entry is taken all the same.
\<close>

theorem collect_empty_domain_counterexample:
  "make_meta [(''sex'', Object []), (''income'', Object [])]
     = Inr \<lparr>target_names = Object [], feature_names = [''sex'', ''income''],
            categorical_features = [(''sex'', []), (''income'', [])]\<rparr>
   \<and> map_of [(''sex'', []), (''income'', [])] ''sex'' = Some []
   \<and> collect [''sex''] [(''sex'', []), (''income'', [])] [] [''banana''] []
       = Inr ([(''sex'', Str '' banana'')], [], [RawInput ''enter sex >''])
   \<and> predict always_low
         \<lparr>target_names = Object [], feature_names = [''sex'', ''income''],
          categorical_features = [(''sex'', []), (''income'', [])]\<rparr>
         ['' <=50K''] [''banana'']
       = Inr ([], [RawInput ''enter sex >'', Print ''We predict that you make  <=50K''])"
  by (simp add: make_meta_def pd_unique_def predict_def rejects_def prompt_def always_low_def
      inverse_transform_def np_unique_def DataFrame_def)


end
